theory Spec2Isabelle
  imports Complex_Main "HOL-Library.Multiset"
begin

section \<open>Common values\<close>

text \<open>
  The Python sources compute on IEEE doubles; the embedding reads every float as a
  real number, so the theorems below are about the exact arithmetic of the formulas
  the code writes down and say nothing about rounding error.
\<close>

datatype error = ValueError | KeyError | ZeroDivisionError | InvalidParameterError

text \<open>Python's \<^verbatim>\<open>max(xs)\<close> on a non-empty list; the callers test emptiness first.\<close>

definition py_max :: "real list \<Rightarrow> real" where
  "py_max xs = fold max (tl xs) (hd xs)"

definition py_min :: "real list \<Rightarrow> real" where
  "py_min xs = fold min (tl xs) (hd xs)"

text \<open>\<^verbatim>\<open>np.mean\<close> of a non-empty sequence.\<close>

definition np_mean :: "real list \<Rightarrow> real" where
  "np_mean xs = sum_list xs / real (length xs)"

text \<open>
  \<^verbatim>\<open>round(x, d)\<close>: to the nearest multiple of \<open>10\<^sup>-\<^sup>d\<close>, an exact tie going to the
  even neighbour.
\<close>

definition round_half_even :: "real \<Rightarrow> int" where
  "round_half_even y =
     (let f = \<lfloor>y\<rfloor>; r = y - of_int f
      in if r < 1 / 2 then f else if 1 / 2 < r then f + 1
         else if even f then f else f + 1)"

definition py_round :: "real \<Rightarrow> nat \<Rightarrow> real" where
  "py_round x d = of_int (round_half_even (x * 10 ^ d)) / 10 ^ d"

text \<open>
  \<^verbatim>\<open>np.argmax\<close> and \<^verbatim>\<open>idxmax\<close>/\<^verbatim>\<open>idxmin\<close> return the first position that holds the
  extreme value.
\<close>

definition first_index :: "real list \<Rightarrow> real \<Rightarrow> nat" where
  "first_index xs v = length (takeWhile (\<lambda>x. x \<noteq> v) xs)"

text \<open>A DataFrame: its column names and its rows, in order.\<close>

record 'a frame =
  columns :: "string list"
  rows :: "'a list"

section \<open>Load scheduling (src/models/optimization.py)\<close>

text \<open>
  One record of \<^verbatim>\<open>hourly.to_dict(orient="records")\<close>. \<^verbatim>\<open>load_pct\<close> divides by the
  total load and is not a number when that total is zero: \<open>None\<close>.
\<close>

record hourly_bin =
  hour_of_day :: int
  load :: real
  load_pct :: "real option"

record schedule_result =
  method_name :: string
  original_load :: "real list"
  optimized_load :: "real list"
  original_peak :: real
  optimized_peak :: real
  peak_reduction_pct :: real

text \<open>
  Pass 1 of \<^verbatim>\<open>_heuristic_optimization\<close>: the loop over \<^verbatim>\<open>original_load\<close> that appends to
  \<^verbatim>\<open>optimized\<close> and adds to \<^verbatim>\<open>excess\<close>.
\<close>

fun shave_peaks :: "real \<Rightarrow> real \<Rightarrow> real list \<Rightarrow> real list \<Rightarrow> real \<Rightarrow> real list \<times> real" where
  "shave_peaks avg_load shift_pct [] optimized excess = (optimized, excess)"
| "shave_peaks avg_load shift_pct (l # rest) optimized excess =
     (if avg_load * (12 / 10) < l
      then (let shaved = l * shift_pct
            in shave_peaks avg_load shift_pct rest (optimized @ [l - shaved]) (excess + shaved))
      else shave_peaks avg_load shift_pct rest (optimized @ [l]) excess)"

text \<open>
  Pass 2: the loop \<^verbatim>\<open>for i in range(len(optimized))\<close> that updates \<^verbatim>\<open>optimized[i]\<close> in
  place; the first argument is the list of indices still to visit.
\<close>

fun fill_valleys :: "real \<Rightarrow> nat list \<Rightarrow> real list \<Rightarrow> real \<Rightarrow> real list \<times> real" where
  "fill_valleys avg_load [] optimized excess = (optimized, excess)"
| "fill_valleys avg_load (i # rest) optimized excess =
     (if optimized ! i < avg_load * (8 / 10) \<and> 0 < excess
      then (let fill = min excess (avg_load - optimized ! i)
            in fill_valleys avg_load rest (optimized[i := optimized ! i + fill]) (excess - fill))
      else fill_valleys avg_load rest optimized excess)"

text \<open>
  The tail shared by both paths: the two peaks, the reduction and the result dictionary.
  \<^verbatim>\<open>max\<close> of an empty list raises ValueError, and the division raises
  ZeroDivisionError when the original peak is zero.
\<close>

definition make_result :: "string \<Rightarrow> real list \<Rightarrow> real list \<Rightarrow> error + schedule_result" where
  "make_result m orig opt =
     (if orig = [] \<or> opt = [] then Inl ValueError
      else let original_peak = py_max orig; optimized_peak = py_max opt
           in if original_peak = 0 then Inl ZeroDivisionError
              else let reduction = (1 - optimized_peak / original_peak) * 100
                   in Inr \<lparr>method_name = m, original_load = orig, optimized_load = opt,
                           original_peak = py_round original_peak 2,
                           optimized_peak = py_round optimized_peak 2,
                           peak_reduction_pct = py_round reduction 2\<rparr>)"

definition heuristic_optimization :: "hourly_bin list \<Rightarrow> real \<Rightarrow> error + schedule_result" where
  "heuristic_optimization hourly_profile shift_pct =
     (let original_load = map load hourly_profile;
          avg_load = np_mean original_load;
          (optimized, excess) = shave_peaks avg_load shift_pct original_load [] 0;
          (optimized, excess) = fill_valleys avg_load [0..<length optimized] optimized excess
      in make_result ''Heuristic (Peak Shaving)'' original_load optimized)"

text \<open>
  The PuLP problem built by \<^verbatim>\<open>optimize_charging_schedule\<close>: variables \<^verbatim>\<open>x[i]\<close> and
  \<^verbatim>\<open>peak\<close> with lower bound 0, \<^verbatim>\<open>x[i] <= peak\<close>, \<^verbatim>\<open>lpSum(x) == total_load\<close> and
  \<^verbatim>\<open>x[i] >= original_load[i] * (1 - shift_pct)\<close>; the objective is \<^verbatim>\<open>peak\<close>.
\<close>

definition lp_feasible :: "real list \<Rightarrow> real \<Rightarrow> real list \<Rightarrow> real \<Rightarrow> bool" where
  "lp_feasible orig shift_pct x peak \<longleftrightarrow>
     length x = length orig \<and> 0 \<le> peak \<and>
     list_all (\<lambda>v. 0 \<le> v \<and> v \<le> peak) x \<and>
     sum_list x = sum_list orig \<and>
     list_all2 (\<lambda>v l. l * (1 - shift_pct) \<le> v) x orig"

definition lp_optimal :: "real list \<Rightarrow> real \<Rightarrow> real list \<Rightarrow> bool" where
  "lp_optimal orig shift_pct x \<longleftrightarrow>
     (\<exists>peak. lp_feasible orig shift_pct x peak \<and>
        (\<forall>y q. lp_feasible orig shift_pct y q \<longrightarrow> peak \<le> q))"

text \<open>
  The solver is outside the repository. A backend takes the problem data and returns
  \<^verbatim>\<open>prob.status\<close> with the value of every variable \<^verbatim>\<open>x[i]\<close>; \<^verbatim>\<open>None\<close> is the
  ImportError branch. Status 1 is PuLP's "Optimal".
\<close>

type_synonym lp_backend = "real list \<Rightarrow> real \<Rightarrow> int \<times> (nat \<Rightarrow> real)"

definition optimize_charging_schedule ::
  "lp_backend option \<Rightarrow> hourly_bin list \<Rightarrow> real \<Rightarrow> error + schedule_result" where
  "optimize_charging_schedule pulp hourly_profile shift_pct =
     (case pulp of
        None \<Rightarrow> heuristic_optimization hourly_profile shift_pct
      | Some solve \<Rightarrow>
          (let hours = length hourly_profile;
               original_load = map load hourly_profile;
               (status, val) = solve original_load shift_pct
           in if status = 1
              then make_result ''Linear Programming (PuLP)'' original_load (map val [0..<hours])
              else heuristic_optimization hourly_profile shift_pct))"

text \<open>
  What the code relies on from the solver: when it reports status 1, the values it
  returns are an optimal solution of the problem above.
\<close>

definition solver_sound :: "lp_backend \<Rightarrow> real list \<Rightarrow> real \<Rightarrow> bool" where
  "solver_sound solve orig shift_pct \<longleftrightarrow>
     (case solve orig shift_pct of
        (status, val) \<Rightarrow> status = 1 \<longrightarrow> lp_optimal orig shift_pct (map val [0..<length orig]))"

text \<open>A day that is flat at 10 except for one hour at 20.\<close>

definition spike_profile :: "hourly_bin list" where
  "spike_profile =
     map (\<lambda>h. \<lparr>hour_of_day = int h, load = (if h = 18 then 20 else 10), load_pct = None\<rparr>) [0..<24]"

text \<open>A two-hour profile and a backend that answers it with the flat optimum.\<close>

definition two_bins :: "hourly_bin list" where
  "two_bins = [\<lparr>hour_of_day = 0, load = 10, load_pct = Some 25\<rparr>,
               \<lparr>hour_of_day = 1, load = 30, load_pct = Some 75\<rparr>]"

definition flat_solver :: lp_backend where
  "flat_solver orig shift_pct = (1, \<lambda>i. 20)"

section \<open>Load profile analysis (src/models/optimization.py)\<close>

text \<open>
  A usage record: its \<^verbatim>\<open>hour_of_day\<close> cell and its numeric cells by column name. A
  cell may be missing (NaN, as an unparseable start time leaves the hour): \<open>None\<close>. The
  hour cell is read only when the table has that column.
\<close>

record usage_row =
  row_hour :: "int option"
  row_val :: "string \<Rightarrow> real option"

record load_profile =
  hourly_profile :: "hourly_bin list"
  peak_hour :: int
  off_peak_hour :: int
  peak_to_avg_ratio :: "real option"

definition energy_candidates :: "string list" where
  "energy_candidates = [''energy_kwh'', ''energy'', ''kwh'', ''power'']"

text \<open>
  The load of one group of \<^verbatim>\<open>df.groupby("hour_of_day")\<close>: the group's size when no energy
  column was found, the sum of the energy column otherwise, which skips missing cells.
\<close>

definition hour_load :: "string option \<Rightarrow> usage_row list \<Rightarrow> int \<Rightarrow> real" where
  "hour_load energy_col rs h =
     (let grp = filter (\<lambda>r. row_hour r = Some h) rs
      in case energy_col of
           None \<Rightarrow> real (length grp)
         | Some c \<Rightarrow> sum_list (map (\<lambda>r. case row_val r c of None \<Rightarrow> 0 | Some v \<Rightarrow> v) grp))"

text \<open>
  \<^verbatim>\<open>analyze_load_profile\<close>. The early \<^verbatim>\<open>return None\<close> is \<open>Inr None\<close>; \<^verbatim>\<open>idxmax\<close> of an
  empty column raises ValueError. The groups come out in ascending order of the hour, one
  per distinct hour of the input; rows whose hour is missing belong to no group. The ratio divides by the mean and is not a number when
  the mean is zero: \<open>None\<close>.
\<close>

definition analyze_load_profile :: "usage_row frame \<Rightarrow> error + load_profile option" where
  "analyze_load_profile df =
     (if ''hour_of_day'' \<notin> set (columns df) then Inr None
      else
        let energy_col = find (\<lambda>c. c \<in> set (columns df)) energy_candidates;
            hours = sort (remdups (List.map_filter row_hour (rows df)));
            loads = map (hour_load energy_col (rows df)) hours;
            total = sum_list loads;
            hourly = map (\<lambda>h. \<lparr>hour_of_day = h,
                                load = hour_load energy_col (rows df) h,
                                load_pct = (if total = 0 then None
                                            else Some (py_round (hour_load energy_col (rows df) h
                                                                   / total * 100) 2))\<rparr>) hours
        in if hourly = [] then Inl ValueError
           else
             let peak_hour = hours ! first_index loads (py_max loads);
                 off_peak = hours ! first_index loads (py_min loads);
                 peak_to_avg = (if np_mean loads = 0 then None
                                else Some (py_max loads / np_mean loads))
             in Inr (Some \<lparr>hourly_profile = hourly, peak_hour = peak_hour,
                            off_peak_hour = off_peak,
                            peak_to_avg_ratio = map_option (\<lambda>x. py_round x 2) peak_to_avg\<rparr>))"

text \<open>
  Two sessions, at hours 3 and 7; the same table without the hour column; a table with
  the column and no rows; and one whose only row has no hour.
\<close>

definition two_sessions :: "usage_row frame" where
  "two_sessions =
     \<lparr>columns = [''hour_of_day'', ''energy_kwh''],
      rows = [\<lparr>row_hour = Some 7, row_val = (\<lambda>c. Some 2)\<rparr>,
              \<lparr>row_hour = Some 3, row_val = (\<lambda>c. Some 1)\<rparr>]\<rparr>"

definition no_hour_column :: "usage_row frame" where
  "no_hour_column =
     \<lparr>columns = [''energy_kwh''],
      rows = [\<lparr>row_hour = None, row_val = (\<lambda>c. Some 2)\<rparr>]\<rparr>"

definition no_sessions :: "usage_row frame" where
  "no_sessions = \<lparr>columns = [''hour_of_day'', ''energy_kwh''], rows = []\<rparr>"

definition unknown_hour :: "usage_row frame" where
  "unknown_hour =
     \<lparr>columns = [''hour_of_day'', ''energy_kwh''],
      rows = [\<lparr>row_hour = None, row_val = (\<lambda>c. Some 2)\<rparr>]\<rparr>"

section \<open>Station clustering (src/models/clustering.py)\<close>

text \<open>
  A station row gives each column's cell by name; \<open>None\<close> is a missing value, which
  \<^verbatim>\<open>dropna\<close> removes.
\<close>

type_synonym station_row = "string \<Rightarrow> real option"

record kmeans_result =
  optimal_k :: nat
  silhouette_score :: real
  elbow_k :: "nat list"
  elbow_silhouette :: "real list"

text \<open>The coordinate cells of a row.\<close>

definition coordinates :: "station_row \<Rightarrow> real option \<times> real option" where
  "coordinates r = (r ''latitude'', r ''longitude'')"

text \<open>
  Scaling, the k-means fit with its fixed seed and the silhouette score are library
  calls: \<open>score X k\<close> stands for the silhouette of the fit with \<open>k\<close> clusters on the
  scaled rows \<open>X\<close>. The silhouette is not defined when the fit yields a single label, as
  it does on rows that all lie at one place; the library then raises, and so does the
  loop. The loop \<^verbatim>\<open>for k in K_range\<close> appends one score per candidate.
\<close>

fun score_all :: "(nat \<Rightarrow> error + real) \<Rightarrow> nat list \<Rightarrow> real list \<Rightarrow> error + real list" where
  "score_all f [] silhouettes = Inr silhouettes"
| "score_all f (k # ks) silhouettes =
     (case f k of
        Inl e \<Rightarrow> Inl e
      | Inr v \<Rightarrow> score_all f ks (silhouettes @ [v]))"

text \<open>
  What the code relies on from the library: on rows at distinct places and a cluster
  count from 2 to one less than the number of rows, the fit yields that many clusters and
  the silhouette is defined.
\<close>

definition silhouette_defined :: "(station_row list \<Rightarrow> nat \<Rightarrow> error + real) \<Rightarrow> bool" where
  "silhouette_defined score \<longleftrightarrow>
     (\<forall>X k. distinct (map coordinates X) \<and> 2 \<le> k \<and> k < length X
            \<longrightarrow> (\<exists>v. score X k = Inr v))"

text \<open>
  \<^verbatim>\<open>run_kmeans\<close>, up to the choice of the best cluster count. The candidates are
  \<^verbatim>\<open>range(2, min(12, len(X)))\<close>, whose end is exclusive; \<^verbatim>\<open>np.argmax\<close> of no scores
  raises ValueError. The argument \<^verbatim>\<open>n_clusters\<close> is adjusted and printed but never
  reaches a fit.
\<close>

definition run_kmeans ::
  "(station_row list \<Rightarrow> nat \<Rightarrow> error + real) \<Rightarrow> station_row frame \<Rightarrow> nat
     \<Rightarrow> string list option \<Rightarrow> error + kmeans_result option" where
  "run_kmeans score df n_clusters features =
     (let features = (case features of None \<Rightarrow> [''latitude'', ''longitude''] | Some fs \<Rightarrow> fs);
          available = filter (\<lambda>f. f \<in> set (columns df)) features
      in if length available < 2 then Inr None
         else
           let X = filter (\<lambda>r. \<forall>f \<in> set available. r f \<noteq> None) (rows df);
               n_clusters = (if length X < n_clusters then max 2 (length X - 1) else n_clusters);
               K_range = [2..<min 12 (length X)]
           in (case score_all (score X) K_range [] of
                 Inl e \<Rightarrow> Inl e
               | Inr silhouettes \<Rightarrow>
                   (if silhouettes = [] then Inl ValueError
                    else
                      let best_k = K_range ! first_index silhouettes (py_max silhouettes);
                          best_silhouette = py_max silhouettes
                      in Inr (Some \<lparr>optimal_k = best_k,
                                     silhouette_score = py_round best_silhouette 4,
                                     elbow_k = K_range, elbow_silhouette = silhouettes\<rparr>))))"

text \<open>
  Thirteen stations at distinct places, three stations at one place, and a score that
  grows with the cluster count and is undefined when all rows lie at one place.
\<close>

definition thirteen_stations :: "station_row frame" where
  "thirteen_stations =
     \<lparr>columns = [''latitude'', ''longitude''],
      rows = map (\<lambda>i. (\<lambda>c. Some (real i))) [0..<13]\<rparr>"

definition three_same :: "station_row frame" where
  "three_same =
     \<lparr>columns = [''latitude'', ''longitude''],
      rows = [(\<lambda>c. Some 1), (\<lambda>c. Some 1), (\<lambda>c. Some 1)]\<rparr>"

definition growing_score :: "station_row list \<Rightarrow> nat \<Rightarrow> error + real" where
  "growing_score X k =
     (if length (remdups (map coordinates X)) < 2 then Inl ValueError else Inr (real k / 100))"

section \<open>Gap analysis and placement (src/models.py)\<close>

subsection \<open>Tables\<close>

text \<open>
  A station row carries its coordinates in degrees; a coordinate cell may be missing
  (NaN): \<open>None\<close>. A demand row adds the demand score and the \<^verbatim>\<open>cluster\<close> cell, which
  exists once \<^verbatim>\<open>recommend_locations\<close> has added that column. A recommendation row is a
  centre with its priority.
\<close>

record geo_row =
  latitude :: "real option"
  longitude :: "real option"

record demand_row = geo_row +
  demand_score :: int
  cluster :: "nat option"

record site_row = geo_row +
  priority_score :: int

subsection \<open>Great-circle distance\<close>

text \<open>\<^verbatim>\<open>np.radians\<close>.\<close>

definition radians :: "real \<Rightarrow> real" where
  "radians d = d * pi / 180"

text \<open>
  The haversine metric of the ball tree, on (latitude, longitude) pairs in radians; the
  result is an angle, the distance on the unit sphere.
\<close>

definition haversine :: "real \<times> real \<Rightarrow> real \<times> real \<Rightarrow> real" where
  "haversine x1 x2 =
     (let sin_0 = sin ((fst x1 - fst x2) / 2);
          sin_1 = sin ((snd x1 - snd x2) / 2)
      in 2 * arcsin (sqrt (sin_0 * sin_0 + cos (fst x1) * cos (fst x2) * sin_1 * sin_1)))"

text \<open>
  \<^verbatim>\<open>tree.query_radius(X, r, count_only=True)\<close> for one query point: the number of tree
  points at distance at most \<open>r\<close>.
\<close>

definition query_radius_count :: "(real \<times> real) list \<Rightarrow> real \<Rightarrow> real \<times> real \<Rightarrow> nat" where
  "query_radius_count tree r q = length (filter (\<lambda>p. haversine q p \<le> r) tree)"

subsection \<open>The component and its state\<close>

text \<open>
  The attributes of a \<^verbatim>\<open>StationClusterer\<close> object. \<^verbatim>\<open>gap_points\<close> does not exist until
  \<^verbatim>\<open>find_gaps\<close> has run: \<open>None\<close>. \<open>model_n_clusters\<close> is \<^verbatim>\<open>self.model.n_clusters\<close>.
  The type parameter is what \<^verbatim>\<open>gap_points\<close> holds: the table itself where only its
  content matters, its address where the identity of the table matters.
\<close>

record 'g clusterer =
  n_new_stations :: int
  coverage_radius_km :: real
  model_n_clusters :: int
  gap_points :: "'g option"

definition init :: "int \<Rightarrow> real \<Rightarrow> 'g clusterer" where
  "init n r = \<lparr>n_new_stations = n, coverage_radius_km = r, model_n_clusters = n,
               gap_points = None\<rparr>"

text \<open>\<^verbatim>\<open>np.radians\<close> of the two coordinate columns; a missing cell stays missing.\<close>

definition to_radians :: "'a geo_row_scheme \<Rightarrow> real option \<times> real option" where
  "to_radians p = (map_option radians (latitude p), map_option radians (longitude p))"

definition has_coordinates :: "'a frame \<Rightarrow> bool" where
  "has_coordinates df \<longleftrightarrow> ''latitude'' \<in> set (columns df) \<and> ''longitude'' \<in> set (columns df)"

text \<open>
  The input check of the library estimators (the ball tree when it is built and when it
  is queried, and the k-means fit): an array with no row or with a missing value is
  refused with ValueError.
\<close>

definition check_array :: "(real option \<times> real option) list \<Rightarrow> error + (real \<times> real) list" where
  "check_array X =
     (if X = [] \<or> list_ex (\<lambda>p. fst p = None \<or> snd p = None) X then Inl ValueError
      else Inr (map (\<lambda>p. (the (fst p), the (snd p))) X))"

text \<open>
  \<^verbatim>\<open>find_gaps\<close>. Selecting a missing column raises KeyError. The ball tree is built from
  the stations and queried with the demand points, and checks both arrays. The returned
  table is a copy of the selected demand rows, and the same table is stored in the object.
\<close>

definition find_gaps ::
  "demand_row frame clusterer \<Rightarrow> geo_row frame \<Rightarrow> demand_row frame
     \<Rightarrow> error + demand_row frame \<times> demand_row frame clusterer" where
  "find_gaps self existing_stations demand_hotspots =
     (if \<not> has_coordinates existing_stations \<or> \<not> has_coordinates demand_hotspots
      then Inl KeyError
      else
        let stations_rad = map to_radians (rows existing_stations);
            demand_rad = map to_radians (rows demand_hotspots)
        in case check_array stations_rad of
             Inl e \<Rightarrow> Inl e
           | Inr tree \<Rightarrow>
               (let earth_radius_km = 6371;
                    radius_rad = coverage_radius_km self / earth_radius_km
                in (case check_array demand_rad of
                      Inl e \<Rightarrow> Inl e
                    | Inr queries \<Rightarrow>
                        (let counts = map (query_radius_count tree radius_rad) queries;
                             gap_mask = map (\<lambda>c. c = 0) counts;
                             gap = demand_hotspots
                                     \<lparr>rows := map fst (filter snd (zip (rows demand_hotspots) gap_mask))\<rparr>
                         in Inr (gap, self\<lparr>gap_points := Some gap\<rparr>)))))"

text \<open>
  Rows without a missing coordinate, the point of such a row in radians, and the test
  behind \<^verbatim>\<open>gap_mask\<close>: no station within the coverage radius.
\<close>

definition all_finite :: "'a geo_row_scheme list \<Rightarrow> bool" where
  "all_finite rs = list_all (\<lambda>p. latitude p \<noteq> None \<and> longitude p \<noteq> None) rs"

definition point_rad :: "'a geo_row_scheme \<Rightarrow> real \<times> real" where
  "point_rad p = (radians (the (latitude p)), radians (the (longitude p)))"

definition is_gap :: "real \<Rightarrow> geo_row frame \<Rightarrow> 'a geo_row_scheme \<Rightarrow> bool" where
  "is_gap radius_km st d \<longleftrightarrow>
     query_radius_count (map point_rad (rows st)) (radius_km / 6371) (point_rad d) = 0"

text \<open>
  One station in Delhi; two demand points, one at the station and one in Bengaluru; the
  same station table with no rows; and a station whose latitude is missing.
\<close>

definition stations_A :: "geo_row frame" where
  "stations_A = \<lparr>columns = [''latitude'', ''longitude''],
                  rows = [\<lparr>latitude = Some (287 / 10), longitude = Some (771 / 10)\<rparr>]\<rparr>"

definition demand_A :: "demand_row frame" where
  "demand_A =
     \<lparr>columns = [''latitude'', ''longitude'', ''demand_score''],
      rows = [\<lparr>latitude = Some (287 / 10), longitude = Some (771 / 10),
                demand_score = 5, cluster = None\<rparr>,
              \<lparr>latitude = Some (1297 / 100), longitude = Some (7759 / 100),
                demand_score = 8, cluster = None\<rparr>]\<rparr>"

definition gap_A :: "demand_row frame" where
  "gap_A =
     \<lparr>columns = [''latitude'', ''longitude'', ''demand_score''],
      rows = [\<lparr>latitude = Some (1297 / 100), longitude = Some (7759 / 100),
                demand_score = 8, cluster = None\<rparr>]\<rparr>"

definition no_stations :: "geo_row frame" where
  "no_stations = \<lparr>columns = [''latitude'', ''longitude''], rows = []\<rparr>"

definition station_without_latitude :: "geo_row frame" where
  "station_without_latitude =
     \<lparr>columns = [''latitude'', ''longitude''],
      rows = [\<lparr>latitude = None, longitude = Some (771 / 10)\<rparr>]\<rparr>"

subsection \<open>Placement\<close>

text \<open>
  The k-means estimator is a library object. \<open>fit k coords\<close> stands for
  \<^verbatim>\<open>self.model.fit_predict(coords)\<close> with \<^verbatim>\<open>n_clusters = k\<close>: it gives the label of every
  point and \<^verbatim>\<open>cluster_centers_\<close>. The coordinates are passed in degrees, unscaled.
\<close>

type_synonym kmeans_lib = "nat \<Rightarrow> (real \<times> real) list \<Rightarrow> nat list \<times> (real \<times> real) list"

text \<open>The members of cluster \<open>c\<close> among \<open>xs\<close>, by the labels.\<close>

definition members :: "nat list \<Rightarrow> nat \<Rightarrow> 'a list \<Rightarrow> 'a list" where
  "members labels c xs = map fst (filter (\<lambda>p. snd p = c) (zip xs labels))"

definition centroid :: "(real \<times> real) list \<Rightarrow> real \<times> real" where
  "centroid ps = (sum_list (map fst ps) / real (length ps), sum_list (map snd ps) / real (length ps))"

text \<open>
  What a converged fit returns: one label below \<open>k\<close> per point, \<open>k\<close> centres, and for
  every cluster that has members the mean of its members as centre.
\<close>

definition kmeans_fit_ok :: "nat \<Rightarrow> (real \<times> real) list \<Rightarrow> nat list \<times> (real \<times> real) list \<Rightarrow> bool" where
  "kmeans_fit_ok k coords res \<longleftrightarrow>
     (case res of (labels, centers) \<Rightarrow>
        length labels = length coords \<and> length centers = k \<and> list_all (\<lambda>l. l < k) labels \<and>
        list_all (\<lambda>c. members labels c coords = [] \<or> centers ! c = centroid (members labels c coords))
          [0..<k])"

text \<open>
  \<^verbatim>\<open>groupby('cluster')['demand_score'].sum()\<close>: one sum per label that occurs, in ascending
  order of the label.
\<close>

definition cluster_scores :: "demand_row list \<Rightarrow> nat list \<Rightarrow> int list" where
  "cluster_scores rs labels =
     map (\<lambda>c. sum_list (map demand_score (members labels c rs))) (sort (remdups labels))"

text \<open>
  \<^verbatim>\<open>sort_values('priority_score', ascending=False)\<close> with the default sorting kind, which
  is not a stable one: the order of rows with equal scores is left to the library. A sorter
  is any function that permutes the rows into descending order of the score.
\<close>

definition descending :: "site_row list \<Rightarrow> bool" where
  "descending xs = sorted_wrt (\<lambda>a b. priority_score b \<le> priority_score a) xs"

definition sort_values_ok :: "(site_row list \<Rightarrow> site_row list) \<Rightarrow> bool" where
  "sort_values_ok srt \<longleftrightarrow> (\<forall>xs. mset (srt xs) = mset xs \<and> descending (srt xs))"

text \<open>The point of a row without a missing coordinate, in degrees.\<close>

definition point_deg :: "'a geo_row_scheme \<Rightarrow> real \<times> real" where
  "point_deg p = (the (latitude p), the (longitude p))"

definition empty_recommendations :: "site_row frame" where
  "empty_recommendations =
     \<lparr>columns = [''latitude'', ''longitude'', ''priority_score''], rows = []\<rparr>"

text \<open>
  \<^verbatim>\<open>self.gap_points['cluster'] = labels\<close>: the column is added if the table does not have
  it, and every row gets its label.
\<close>

definition with_clusters :: "demand_row frame \<Rightarrow> nat list \<Rightarrow> demand_row frame" where
  "with_clusters gp labels =
     gp\<lparr>columns := (if ''cluster'' \<in> set (columns gp) then columns gp
                      else columns gp @ [''cluster'']),
        rows := map2 (\<lambda>r l. r\<lparr>cluster := Some l\<rparr>) (rows gp) labels\<rparr>"

text \<open>
  \<^verbatim>\<open>recommend_locations\<close>. It takes no argument besides the object. The estimator
  rejects a negative cluster count, and its input check refuses a missing coordinate. The
  \<^verbatim>\<open>cluster\<close> column is written into the stored table, which is the very table
  \<^verbatim>\<open>find_gaps\<close> returned. An exception ends the call; what the object looks like after
  a raise is not modelled.
\<close>

definition recommend_locations ::
  "kmeans_lib \<Rightarrow> (site_row list \<Rightarrow> site_row list) \<Rightarrow> demand_row frame clusterer
     \<Rightarrow> error + site_row frame \<times> demand_row frame clusterer" where
  "recommend_locations fit sort_values self =
     (case gap_points self of
        None \<Rightarrow> Inr (empty_recommendations, self)
      | Some gp \<Rightarrow>
          if rows gp = [] \<or> columns gp = [] then Inr (empty_recommendations, self)
          else if \<not> has_coordinates gp then Inl KeyError
          else
            let coords = map (\<lambda>r. (latitude r, longitude r)) (rows gp);
                n_clusters = min (n_new_stations self) (int (length coords))
            in if n_clusters = 0 then Inr (empty_recommendations, self)
               else if n_clusters < 0 then Inl InvalidParameterError
               else
                 (case check_array coords of
                    Inl e \<Rightarrow> Inl e
                  | Inr points \<Rightarrow>
                      (let (labels, centers) = fit (nat n_clusters) points;
                           gp' = with_clusters gp labels;
                           self' = self\<lparr>model_n_clusters := n_clusters, gap_points := Some gp'\<rparr>
                       in if ''demand_score'' \<notin> set (columns gp) then Inl KeyError
                          else
                            let scores = cluster_scores (rows gp) labels;
                                priority = (if length scores = length centers then scores
                                            else replicate (length centers) 0);
                                recommendations =
                                  map2 (\<lambda>c p. \<lparr>latitude = Some (fst c), longitude = Some (snd c),
                                                 priority_score = p\<rparr>)
                                    centers priority
                            in Inr (\<lparr>columns = [''latitude'', ''longitude'', ''priority_score''],
                                     rows = sort_values recommendations\<rparr>, self'))))"

text \<open>
  A sorter that is stable on ties, a fit that puts every point into cluster 0 around the
  mean of all points, and two gap points at one place for which two sites are requested.
\<close>

definition stable_sort_desc :: "site_row list \<Rightarrow> site_row list" where
  "stable_sort_desc xs = rev (sort_key priority_score (rev xs))"

definition lump_fit :: kmeans_lib where
  "lump_fit k coords = (replicate (length coords) 0, replicate k (centroid coords))"


text \<open>A demand table whose only point lies at the station of \<^const>\<open>stations_A\<close>.\<close>

definition covered_demand :: "demand_row frame" where
  "covered_demand =
     \<lparr>columns = [''latitude'', ''longitude'', ''demand_score''],
      rows = [\<lparr>latitude = Some (287 / 10), longitude = Some (771 / 10),
                demand_score = 5, cluster = None\<rparr>]\<rparr>"

section \<open>Tables by address\<close>

text \<open>
  Whether a call leaves a table alone is a question about which table object it writes
  to. Here the tables of the running program live at addresses: the station tables and the
  demand-like tables (demand tables and gap tables), with \<open>fresh\<close> the next unused
  address. The object holds the address of its gap table. \<open>resolve\<close> reads the object
  with the table its address points to.
\<close>

record process =
  stations_at :: "nat \<Rightarrow> geo_row frame"
  demand_at :: "nat \<Rightarrow> demand_row frame"
  fresh :: nat

definition resolve :: "process \<Rightarrow> nat clusterer \<Rightarrow> demand_row frame clusterer" where
  "resolve p self =
     \<lparr>n_new_stations = n_new_stations self, coverage_radius_km = coverage_radius_km self,
      model_n_clusters = model_n_clusters self,
      gap_points = map_option (demand_at p) (gap_points self)\<rparr>"

text \<open>
  \<^verbatim>\<open>find_gaps\<close> on tables given by address. \<^verbatim>\<open>demand_hotspots[gap_mask].copy()\<close> is a new
  table: it gets the fresh address, which is stored in the object and returned.
\<close>

definition find_gaps_at ::
  "process \<Rightarrow> nat clusterer \<Rightarrow> nat \<Rightarrow> nat \<Rightarrow> error + nat \<times> process \<times> nat clusterer" where
  "find_gaps_at p self s d =
     (case find_gaps (resolve p self) (stations_at p s) (demand_at p d) of
        Inl e \<Rightarrow> Inl e
      | Inr (gap, self') \<Rightarrow>
          (let a = fresh p
           in Inr (a, p\<lparr>demand_at := (demand_at p)(a := gap), fresh := Suc a\<rparr>,
                   self\<lparr>gap_points := Some a\<rparr>)))"

text \<open>
  \<^verbatim>\<open>recommend_locations\<close> on the object with its table by address. The assignment
  \<^verbatim>\<open>self.gap_points['cluster'] = ...\<close> writes into the table at the stored address; the
  recommendations are a new table, returned and not kept.
\<close>

definition recommend_locations_at ::
  "kmeans_lib \<Rightarrow> (site_row list \<Rightarrow> site_row list) \<Rightarrow> process \<Rightarrow> nat clusterer
     \<Rightarrow> error + site_row frame \<times> process \<times> nat clusterer" where
  "recommend_locations_at fit sort_values p self =
     (case recommend_locations fit sort_values (resolve p self) of
        Inl e \<Rightarrow> Inl e
      | Inr (recs, self') \<Rightarrow>
          Inr (recs,
               (case (gap_points self, gap_points self') of
                  (Some a, Some gp') \<Rightarrow> p\<lparr>demand_at := (demand_at p)(a := gp')\<rparr>
                | _ \<Rightarrow> p),
               self\<lparr>model_n_clusters := model_n_clusters self'\<rparr>))"

text \<open>
  A process holding the station table of scenario A at address 0 and its demand table at
  address 1.
\<close>

definition process_A :: process where
  "process_A = \<lparr>stations_at = (\<lambda>a. stations_A), demand_at = (\<lambda>a. demand_A), fresh = 2\<rparr>"

text \<open>
  The same process after \<^verbatim>\<open>find_gaps\<close> on these two tables with a radius of 5 km: the
  gap table is at address 2. And after \<^verbatim>\<open>recommend_locations\<close>: the gap table has its
  \<^verbatim>\<open>cluster\<close> column. The site recommended for scenario A.
\<close>

definition process_A1 :: process where
  "process_A1 = process_A\<lparr>demand_at := (demand_at process_A)(2 := gap_A), fresh := 3\<rparr>"

definition clustered_gap_A :: "demand_row frame" where
  "clustered_gap_A =
     \<lparr>columns = [''latitude'', ''longitude'', ''demand_score'', ''cluster''],
      rows = [\<lparr>latitude = Some (1297 / 100), longitude = Some (7759 / 100),
                demand_score = 8, cluster = Some 0\<rparr>]\<rparr>"

definition process_A2 :: process where
  "process_A2 = process_A1\<lparr>demand_at := (demand_at process_A1)(2 := clustered_gap_A)\<rparr>"

definition sites_A :: "site_row frame" where
  "sites_A =
     \<lparr>columns = [''latitude'', ''longitude'', ''priority_score''],
      rows = [\<lparr>latitude = Some (1297 / 100), longitude = Some (7759 / 100),
                priority_score = 8\<rparr>]\<rparr>"

section \<open>Peak of the optimized schedule\<close>

subsection \<open>Maximum, mean and rounding\<close>

lemma py_max_Max: "xs \<noteq> [] \<Longrightarrow> py_max xs = Max (set xs)"
  by (cases xs) (simp_all add: py_max_def Max.set_eq_fold [symmetric] del: set_simps)

lemma py_max_ge: "x \<in> set xs \<Longrightarrow> x \<le> py_max xs"
  by (cases "xs = []") (auto simp: py_max_Max)

lemma py_max_le_iff: "xs \<noteq> [] \<Longrightarrow> py_max xs \<le> b \<longleftrightarrow> (\<forall>x\<in>set xs. x \<le> b)"
  by (simp add: py_max_Max)

lemma py_max_in: "xs \<noteq> [] \<Longrightarrow> py_max xs \<in> set xs"
  using Max_in [of "set xs"] by (simp add: py_max_Max)

lemma sum_list_le_length_max:
  fixes xs :: "real list"
  shows "(\<forall>x\<in>set xs. x \<le> b) \<Longrightarrow> sum_list xs \<le> real (length xs) * b"
  by (induction xs) (auto simp: algebra_simps)

lemma np_mean_le_max: "xs \<noteq> [] \<Longrightarrow> np_mean xs \<le> py_max xs"
proof -
  assume ne: "xs \<noteq> []"
  have "sum_list xs \<le> real (length xs) * py_max xs"
    by (rule sum_list_le_length_max) (simp add: py_max_ge)
  moreover have "0 < real (length xs)" using ne by simp
  ultimately show ?thesis
    unfolding np_mean_def by (simp add: pos_divide_le_eq mult.commute)
qed

lemma shave_peaks_bound:
  assumes "0 < p" "0 < s" "s \<le> 1"
    and "\<forall>x\<in>set ls. x \<le> p" "\<forall>x\<in>set acc. x \<le> p"
    and "shave_peaks avg s ls acc ex = (opt, ex')"
  shows "(\<forall>x\<in>set opt. x \<le> p) \<and> length opt = length acc + length ls"
  using assms(4-)
proof (induction ls arbitrary: acc ex)
  case Nil
  then show ?case by simp
next
  case (Cons l rest)
  have lp: "l \<le> p" using Cons.prems(1) by simp
  have "l - l * s \<le> p"
  proof (cases "0 \<le> l")
    case True
    then have "0 \<le> l * s" using assms(2) by simp
    then show ?thesis using lp by linarith
  next
    case False
    then have "l * (1 - s) \<le> 0" using assms(3) by (simp add: mult_le_0_iff)
    then show ?thesis using assms(1) by (simp add: algebra_simps)
  qed
  then have a1: "\<forall>x\<in>set (acc @ [l - l * s]). x \<le> p" using Cons.prems(2) by simp
  have a2: "\<forall>x\<in>set (acc @ [l]). x \<le> p" using Cons.prems(2) lp by simp
  have r: "\<forall>x\<in>set rest. x \<le> p" using Cons.prems(1) by simp
  show ?case
  proof (cases "avg * (12 / 10) < l")
    case True
    with Cons.prems(3)
    have "shave_peaks avg s rest (acc @ [l - l * s]) (ex + l * s) = (opt, ex')"
      by (simp add: Let_def)
    from Cons.IH [OF r a1 this] show ?thesis by simp
  next
    case False
    with Cons.prems(3) have "shave_peaks avg s rest (acc @ [l]) ex = (opt, ex')"
      by simp
    from Cons.IH [OF r a2 this] show ?thesis by simp
  qed
qed

lemma fill_valleys_bound:
  assumes "avg \<le> p"
    and "\<forall>i\<in>set is. i < length opt" "\<forall>x\<in>set opt. x \<le> p"
    and "fill_valleys avg is opt ex = (opt', ex')"
  shows "(\<forall>x\<in>set opt'. x \<le> p) \<and> length opt' = length opt"
  using assms(2-)
proof (induction "is" arbitrary: opt ex)
  case Nil
  then show ?case by simp
next
  case (Cons i rest)
  have il: "i < length opt" using Cons.prems(1) by simp
  have oi: "opt ! i \<le> p" using Cons.prems(2) il by simp
  let ?v = "opt ! i + min ex (avg - opt ! i)"
  have "?v \<le> p" using assms(1) oi by (simp add: min_def)
  then have upd: "\<forall>x\<in>set (opt[i := ?v]). x \<le> p"
    using Cons.prems(2) by (auto dest!: set_update_subset_insert [THEN subsetD])
  show ?case
  proof (cases "opt ! i < avg * (8 / 10) \<and> 0 < ex")
    case True
    with Cons.prems(3) have "fill_valleys avg rest (opt[i := ?v]) (ex - min ex (avg - opt ! i)) = (opt', ex')"
      by (simp add: Let_def)
    from Cons.IH [OF _ upd this] Cons.prems(1) show ?thesis by simp
  next
    case False
    with Cons.prems(3) have "fill_valleys avg rest opt ex = (opt', ex')"
      by (auto simp: Let_def)
    from Cons.IH [OF _ Cons.prems(2) this] Cons.prems(1) show ?thesis by simp
  qed
qed

lemma round_half_even_mono: "x \<le> y \<Longrightarrow> round_half_even x \<le> round_half_even y"
proof -
  assume xy: "x \<le> y"
  have fl: "\<lfloor>x\<rfloor> \<le> \<lfloor>y\<rfloor>" using xy by (rule floor_mono)
  have lo: "\<lfloor>z\<rfloor> \<le> round_half_even z" and hi: "round_half_even z \<le> \<lfloor>z\<rfloor> + 1" for z
    by (simp_all add: round_half_even_def Let_def)
  show ?thesis
  proof (cases "\<lfloor>x\<rfloor> = \<lfloor>y\<rfloor>")
    case True
    then show ?thesis using xy by (auto simp: round_half_even_def Let_def)
  next
    case False
    then have "\<lfloor>x\<rfloor> + 1 \<le> \<lfloor>y\<rfloor>" using fl by simp
    then show ?thesis using hi [of x] lo [of y] by linarith
  qed
qed

lemma py_round_mono: "x \<le> y \<Longrightarrow> py_round x d \<le> py_round y d"
  unfolding py_round_def
  by (intro divide_right_mono) (simp_all add: round_half_even_mono)

subsection \<open>The heuristic never raises the peak\<close>

lemma make_result_peaks:
  assumes "orig \<noteq> []" "opt \<noteq> []" "0 < py_max orig" "py_max opt \<le> py_max orig"
  shows "\<exists>r. make_result m orig opt = Inr r
           \<and> method_name r = m \<and> original_load r = orig \<and> optimized_load r = opt
           \<and> original_peak r = py_round (py_max orig) 2
           \<and> optimized_peak r = py_round (py_max opt) 2
           \<and> optimized_peak r \<le> original_peak r"
  using assms by (simp add: make_result_def Let_def py_round_mono)

lemma heuristic_returns:
  assumes "0 < py_max (map load prof)" "0 < s" "s \<le> 1" "prof \<noteq> []"
  shows "\<exists>r. heuristic_optimization prof s = Inr r
           \<and> method_name r = ''Heuristic (Peak Shaving)''
           \<and> original_load r = map load prof
           \<and> length (optimized_load r) = length prof
           \<and> py_max (optimized_load r) \<le> py_max (map load prof)
           \<and> original_peak r = py_round (py_max (map load prof)) 2
           \<and> optimized_peak r = py_round (py_max (optimized_load r)) 2
           \<and> optimized_peak r \<le> original_peak r"
proof -
  let ?orig = "map load prof"
  let ?p = "py_max ?orig"
  obtain o1 e1 where s1: "shave_peaks (np_mean ?orig) s ?orig [] 0 = (o1, e1)"
    by (cases "shave_peaks (np_mean ?orig) s ?orig [] 0")
  obtain o2 e2 where s2: "fill_valleys (np_mean ?orig) [0..<length o1] o1 e1 = (o2, e2)"
    by (cases "fill_valleys (np_mean ?orig) [0..<length o1] o1 e1")
  have ne: "?orig \<noteq> []" using assms(4) by simp
  have b1: "(\<forall>x\<in>set o1. x \<le> ?p) \<and> length o1 = length [] + length ?orig"
    using shave_peaks_bound [OF assms(1-3) _ _ s1] by (simp add: py_max_ge)
  have b2: "(\<forall>x\<in>set o2. x \<le> ?p) \<and> length o2 = length o1"
    using fill_valleys_bound [OF np_mean_le_max [OF ne] _ _ s2] b1 by simp
  have len: "length o2 = length prof" using b1 b2 by simp
  have ne2: "o2 \<noteq> []" using len assms(4) by auto
  have le: "py_max o2 \<le> ?p" using b2 ne2 by (simp add: py_max_le_iff)
  have h: "heuristic_optimization prof s = make_result ''Heuristic (Peak Shaving)'' ?orig o2"
    using s1 s2 by (simp add: heuristic_optimization_def Let_def)
  from make_result_peaks [OF ne ne2 assms(1) le, of "''Heuristic (Peak Shaving)''"]
  obtain r where r: "make_result ''Heuristic (Peak Shaving)'' ?orig o2 = Inr r"
    "method_name r = ''Heuristic (Peak Shaving)''" "original_load r = ?orig"
    "optimized_load r = o2" "original_peak r = py_round ?p 2"
    "optimized_peak r = py_round (py_max o2) 2" "optimized_peak r \<le> original_peak r"
    by blast
  have "heuristic_optimization prof s = Inr r" using h r(1) by simp
  moreover have "length (optimized_load r) = length prof" using r(4) len by simp
  moreover have "py_max (optimized_load r) \<le> ?p" using r(4) le by simp
  moreover have "optimized_peak r = py_round (py_max (optimized_load r)) 2"
    using r(4) r(6) by simp
  ultimately show ?thesis using r(2) r(3) r(5) r(7) by blast
qed

subsection \<open>A feasible point with the original peak\<close>

lemma sum_list_mix:
  fixes f :: "real \<Rightarrow> real"
  shows "sum_list (map (\<lambda>l. t * f l + (1 - t) * p) ls)
           = t * sum_list (map f ls) + (1 - t) * (real (length ls) * p)"
  by (induction ls) (simp_all add: algebra_simps)

lemma sum_list_mono_all2:
  fixes xs ys :: "real list"
  shows "list_all2 (\<lambda>x y. y \<le> x) xs ys \<Longrightarrow> sum_list ys \<le> sum_list xs"
  by (induction rule: list_all2_induct) auto

lemma feasible_lower_sum:
  assumes "lp_feasible orig s x pk"
  shows "sum_list (map (\<lambda>l. max 0 (l * (1 - s))) orig) \<le> sum_list orig"
proof -
  have len: "length x = length orig" using assms by (simp add: lp_feasible_def)
  have "list_all2 (\<lambda>v l. max 0 (l * (1 - s)) \<le> v) x orig"
    using assms unfolding lp_feasible_def list_all2_conv_all_nth list_all_length
    by auto
  then have "list_all2 (\<lambda>v m. m \<le> v) x (map (\<lambda>l. max 0 (l * (1 - s))) orig)"
    by (simp add: list_all2_map2)
  then have "sum_list (map (\<lambda>l. max 0 (l * (1 - s))) orig) \<le> sum_list x"
    by (rule sum_list_mono_all2)
  then show ?thesis using assms by (simp add: lp_feasible_def)
qed

lemma flat_feasible:
  assumes p: "0 < py_max orig" and s: "0 < s" "s \<le> 1" and ne: "orig \<noteq> []"
    and low: "sum_list (map (\<lambda>l. max 0 (l * (1 - s))) orig) \<le> sum_list orig"
  shows "\<exists>y. lp_feasible orig s y (py_max orig)"
proof -
  let ?p = "py_max orig"
  let ?L = "\<lambda>l. max 0 (l * (1 - s))"
  let ?n = "real (length orig)"
  let ?SL = "sum_list (map ?L orig)"
  let ?T = "sum_list orig"
  define D where "D = ?n * ?p - ?SL"
  define t where "t = (?n * ?p - ?T) / D"
  let ?y = "map (\<lambda>l. t * ?L l + (1 - t) * ?p) orig"
  have Lp: "?L l \<le> ?p \<and> 0 \<le> ?L l \<and> l * (1 - s) \<le> ?L l" if "l \<in> set orig" for l
  proof -
    have lp: "l \<le> ?p" using that by (rule py_max_ge)
    have "l * (1 - s) \<le> ?p"
    proof (cases "0 \<le> l")
      case True
      then have "l * (1 - s) \<le> l * 1" using s by (intro mult_left_mono) auto
      then show ?thesis using lp by simp
    next
      case False
      then have "l * (1 - s) \<le> 0" using s by (simp add: mult_le_0_iff)
      then show ?thesis using p by simp
    qed
    then show ?thesis using p by simp
  qed
  have Tn: "?T \<le> ?n * ?p"
    by (rule sum_list_le_length_max) (simp add: py_max_ge)
  have D0: "0 \<le> D" using low Tn by (simp add: D_def)
  have t0: "0 \<le> t" unfolding t_def using Tn D0 by simp
  have t1: "t \<le> 1"
  proof (cases "D = 0")
    case True
    then show ?thesis by (simp add: t_def)
  next
    case False
    then have "0 < D" using D0 by simp
    then show ?thesis unfolding t_def using low by (simp add: D_def)
  qed
  have tD: "t * D = ?n * ?p - ?T"
  proof (cases "D = 0")
    case True
    then show ?thesis using low Tn by (simp add: D_def)
  next
    case False
    then show ?thesis by (simp add: t_def)
  qed
  have "sum_list ?y = t * ?SL + (1 - t) * (?n * ?p)"
    by (rule sum_list_mix)
  also have "\<dots> = ?n * ?p - t * D" by (simp add: D_def algebra_simps)
  also have "\<dots> = ?T" using tD by simp
  finally have sum: "sum_list ?y = ?T" .
  have mix: "?L l \<le> t * ?L l + (1 - t) * ?p \<and> t * ?L l + (1 - t) * ?p \<le> ?p"
    if "l \<in> set orig" for l
  proof -
    have a: "?L l \<le> ?p" using Lp [OF that] by simp
    have "t * ?L l + (1 - t) * ?p = ?L l + (1 - t) * (?p - ?L l)" by (simp add: algebra_simps)
    moreover have "0 \<le> (1 - t) * (?p - ?L l)" using t1 a by simp
    moreover have "t * ?L l + (1 - t) * ?p = ?p - t * (?p - ?L l)" by (simp add: algebra_simps)
    moreover have "0 \<le> t * (?p - ?L l)" using t0 a by simp
    ultimately show ?thesis by linarith
  qed
  have rng: "list_all (\<lambda>v. 0 \<le> v \<and> v \<le> ?p) ?y"
    unfolding list_all_iff using mix Lp by fastforce
  have lows: "list_all2 (\<lambda>v l. l * (1 - s) \<le> v) ?y orig"
    unfolding list_all2_map1 list_all2_same using mix Lp by fastforce
  have "lp_feasible orig s ?y ?p"
    unfolding lp_feasible_def using p sum rng lows by simp
  then show ?thesis ..
qed

lemma lp_optimal_peak:
  assumes p: "0 < py_max orig" and s: "0 < s" "s \<le> 1" and ne: "orig \<noteq> []"
    and opt: "lp_optimal orig s x"
  shows "x \<noteq> [] \<and> py_max x \<le> py_max orig"
proof -
  from opt obtain pk where f: "lp_feasible orig s x pk"
    and m: "\<forall>y q. lp_feasible orig s y q \<longrightarrow> pk \<le> q"
    by (auto simp: lp_optimal_def)
  from flat_feasible [OF p s ne feasible_lower_sum [OF f]]
  obtain y where "lp_feasible orig s y (py_max orig)" ..
  with m have pk: "pk \<le> py_max orig" by blast
  have xne: "x \<noteq> []" using f ne by (auto simp: lp_feasible_def)
  have "\<forall>v\<in>set x. v \<le> pk" using f by (simp add: lp_feasible_def list_all_iff)
  then have "py_max x \<le> pk" using xne by (simp add: py_max_le_iff)
  with pk xne show ?thesis by simp
qed

subsection \<open>Both paths\<close>

text \<open>
  C3. For a non-empty profile whose original peak is strictly positive and a shift
  fraction in (0, 1], the call returns a result for that profile: its original loads are
  the loads of the profile, its optimized loads are as many, and the optimized peak is at
  most the original peak, as a maximum of the returned loads and in the rounded peak
  fields. On the LP path this uses that a backend reporting status 1 returns an optimal
  solution; the heuristic path needs nothing beyond the code.
\<close>

theorem optimized_peak_le_original:
  assumes "prof \<noteq> []" and "0 < py_max (map load prof)" and "0 < s" and "s \<le> 1"
    and "\<forall>solve. pulp = Some solve \<longrightarrow> solver_sound solve (map load prof) s"
  shows "\<exists>r. optimize_charging_schedule pulp prof s = Inr r
           \<and> original_load r = map load prof
           \<and> length (optimized_load r) = length prof
           \<and> py_max (optimized_load r) \<le> py_max (original_load r)
           \<and> Max (set (optimized_load r)) \<le> Max (set (map load prof))
           \<and> original_peak r = py_round (Max (set (map load prof))) 2
           \<and> optimized_peak r = py_round (Max (set (optimized_load r))) 2
           \<and> optimized_peak r \<le> original_peak r"
proof -
  let ?orig = "map load prof"
  have ne: "?orig \<noteq> []" using assms(1) by simp
  have "\<exists>r. optimize_charging_schedule pulp prof s = Inr r
           \<and> original_load r = ?orig
           \<and> length (optimized_load r) = length prof
           \<and> py_max (optimized_load r) \<le> py_max ?orig
           \<and> original_peak r = py_round (py_max ?orig) 2
           \<and> optimized_peak r = py_round (py_max (optimized_load r)) 2
           \<and> optimized_peak r \<le> original_peak r"
  proof (cases pulp)
    case None
    then have "optimize_charging_schedule pulp prof s = heuristic_optimization prof s"
      by (simp add: optimize_charging_schedule_def)
    then show ?thesis using heuristic_returns [OF assms(2-4) assms(1)] by (simp only:) blast
  next
    case (Some solve)
    obtain status val where sv: "solve ?orig s = (status, val)"
      by (cases "solve ?orig s")
    show ?thesis
    proof (cases "status = 1")
      case True
      let ?x = "map val [0..<length prof]"
      have "solver_sound solve ?orig s" using assms(5) Some by simp
      then have "lp_optimal ?orig s ?x"
        using sv True by (simp add: solver_sound_def)
      from lp_optimal_peak [OF assms(2-4) _ this] assms(1)
      have x: "?x \<noteq> []" "py_max ?x \<le> py_max ?orig" by simp_all
      have o: "optimize_charging_schedule pulp prof s
              = make_result ''Linear Programming (PuLP)'' ?orig ?x"
        using Some sv True by (simp add: optimize_charging_schedule_def Let_def)
      from make_result_peaks [OF ne x(1) assms(2) x(2), of "''Linear Programming (PuLP)''"]
      obtain r where r: "make_result ''Linear Programming (PuLP)'' ?orig ?x = Inr r"
        "original_load r = ?orig" "optimized_load r = ?x"
        "original_peak r = py_round (py_max ?orig) 2"
        "optimized_peak r = py_round (py_max ?x) 2" "optimized_peak r \<le> original_peak r"
        by blast
      have "optimize_charging_schedule pulp prof s = Inr r" using o r(1) by simp
      moreover have "length (optimized_load r) = length prof" using r(3) by simp
      moreover have "py_max (optimized_load r) \<le> py_max ?orig" using r(3) x(2) by simp
      moreover have "optimized_peak r = py_round (py_max (optimized_load r)) 2"
        using r(3) r(5) by simp
      ultimately show ?thesis using r(2) r(4) r(6) by blast
    next
      case False
      then have "optimize_charging_schedule pulp prof s = heuristic_optimization prof s"
        using Some sv by (simp add: optimize_charging_schedule_def Let_def)
      then show ?thesis using heuristic_returns [OF assms(2-4) assms(1)] by (simp only:) blast
    qed
  qed
  then obtain r where r: "optimize_charging_schedule pulp prof s = Inr r"
    "original_load r = ?orig" "length (optimized_load r) = length prof"
    "py_max (optimized_load r) \<le> py_max ?orig"
    "original_peak r = py_round (py_max ?orig) 2"
    "optimized_peak r = py_round (py_max (optimized_load r)) 2"
    "optimized_peak r \<le> original_peak r"
    by blast
  have one: "optimized_load r \<noteq> []" using r(3) assms(1) by auto
  have m1: "py_max (optimized_load r) = Max (set (optimized_load r))"
    using one by (rule py_max_Max)
  have m2: "py_max ?orig = Max (set ?orig)" using ne by (rule py_max_Max)
  have "py_max (optimized_load r) \<le> py_max (original_load r)" using r(2) r(4) by simp
  moreover have "Max (set (optimized_load r)) \<le> Max (set ?orig)" using r(4) m1 m2 by simp
  moreover have "original_peak r = py_round (Max (set ?orig)) 2" using r(5) m2 by simp
  moreover have "optimized_peak r = py_round (Max (set (optimized_load r))) 2"
    using r(6) m1 by simp
  ultimately show ?thesis using r(1) r(2) r(3) r(7) by blast
qed

lemma flat_solver_sound: "solver_sound flat_solver (map load two_bins) (1 / 2)"
proof -
  have f: "lp_feasible [10, 30] (1 / 2) [20, 20] 20"
    by (simp add: lp_feasible_def)
  have "20 \<le> q" if "lp_feasible [10, 30] (1 / 2) y q" for y q
  proof -
    from that have len: "length y = 2" and sum: "sum_list y = 40"
      and le: "\<forall>v\<in>set y. v \<le> q"
      by (auto simp: lp_feasible_def list_all_iff)
    have "sum_list y \<le> real (length y) * q" using le by (rule sum_list_le_length_max)
    then show ?thesis using len sum by simp
  qed
  with f have "lp_optimal [10, 30] (1 / 2) [20, 20]"
    unfolding lp_optimal_def by blast
  moreover have "map (\<lambda>i. 20::real) [0..<2] = [20, 20]" by code_simp
  ultimately show ?thesis
    by (simp add: solver_sound_def flat_solver_def two_bins_def)
qed

theorem optimized_peak_le_original_witness:
  "two_bins \<noteq> [] \<and> 0 < py_max (map load two_bins)
     \<and> solver_sound flat_solver (map load two_bins) (1 / 2)
     \<and> (\<exists>r. optimize_charging_schedule (Some flat_solver) two_bins (1 / 2) = Inr r
       \<and> original_load r = [10, 30]
       \<and> length (optimized_load r) = 2
       \<and> py_max (optimized_load r) \<le> py_max (original_load r)
       \<and> optimized_peak r \<le> original_peak r)"
proof -
  have 1: "two_bins \<noteq> []" by (simp add: two_bins_def)
  have 2: "0 < py_max (map load two_bins)" by (simp add: two_bins_def py_max_def)
  have 3: "\<forall>solve. Some flat_solver = Some solve \<longrightarrow> solver_sound solve (map load two_bins) (1 / 2)"
    using flat_solver_sound by simp
  have 4: "map load two_bins = [10, 30]" "length two_bins = 2" by (simp_all add: two_bins_def)
  from optimized_peak_le_original [OF 1 2 _ _ 3]
  obtain r where "optimize_charging_schedule (Some flat_solver) two_bins (1 / 2) = Inr r"
    "original_load r = map load two_bins" "length (optimized_load r) = length two_bins"
    "py_max (optimized_load r) \<le> py_max (original_load r)"
    "optimized_peak r \<le> original_peak r"
    by auto
  then have "\<exists>r. optimize_charging_schedule (Some flat_solver) two_bins (1 / 2) = Inr r
       \<and> original_load r = [10, 30]
       \<and> length (optimized_load r) = 2
       \<and> py_max (optimized_load r) \<le> py_max (original_load r)
       \<and> optimized_peak r \<le> original_peak r"
    unfolding 4 by blast
  then show ?thesis using 1 2 flat_solver_sound by (intro conjI)
qed

section \<open>Energy conservation\<close>

text \<open>
  C2. Energy conservation of the schedule. On the heuristic path the code does not
  conserve energy: for \<^const>\<open>spike_profile\<close> and the default shift fraction 0.3 the
  peak hour is shaved from 20 to 14, no hour lies below 0.8 times the mean, so the pool
  of 6 is never redistributed; the result carries 244 of the original 250 and has no
  field in which the missing 6 would be reported.
\<close>

theorem heuristic_drops_excess:
  "map_sum id (\<lambda>r. (sum_list (original_load r), sum_list (optimized_load r)))
     (heuristic_optimization spike_profile (3 / 10)) = Inr (250, 244)"
  by code_simp

section \<open>Load profile analysis\<close>

subsection \<open>First position of an extreme value\<close>

lemma py_min_Min: "xs \<noteq> [] \<Longrightarrow> py_min xs = Min (set xs)"
  by (cases xs) (simp_all add: py_min_def Min.set_eq_fold [symmetric] del: set_simps)

lemma first_index_less: "v \<in> set xs \<Longrightarrow> first_index xs v < length xs"
  unfolding first_index_def by (induction xs) auto

lemma first_index_nth: "v \<in> set xs \<Longrightarrow> xs ! first_index xs v = v"
  unfolding first_index_def by (induction xs) auto

lemma first_index_before: "j < first_index xs v \<Longrightarrow> xs ! j \<noteq> v"
  unfolding first_index_def
  using nth_mem [of j "takeWhile (\<lambda>x. x \<noteq> v) xs"]
  by (auto simp: takeWhile_nth dest: set_takeWhileD)

lemma first_max:
  assumes "xs \<noteq> []"
  shows "first_index xs (py_max xs) < length xs
         \<and> xs ! first_index xs (py_max xs) = Max (set xs)
         \<and> (\<forall>j < first_index xs (py_max xs). xs ! j < Max (set xs))"
proof -
  have m: "py_max xs = Max (set xs)" using assms by (rule py_max_Max)
  have mem: "py_max xs \<in> set xs" using assms by (rule py_max_in)
  have "xs ! j < Max (set xs)" if "j < first_index xs (py_max xs)" for j
  proof -
    have "j < length xs" using that first_index_less [OF mem] by simp
    then have "xs ! j \<le> Max (set xs)" by simp
    moreover have "xs ! j \<noteq> Max (set xs)" using first_index_before [OF that] m by simp
    ultimately show ?thesis by simp
  qed
  then show ?thesis using first_index_less [OF mem] first_index_nth [OF mem] m by simp
qed

lemma first_min:
  assumes "xs \<noteq> []"
  shows "first_index xs (py_min xs) < length xs
         \<and> xs ! first_index xs (py_min xs) = Min (set xs)
         \<and> (\<forall>j < first_index xs (py_min xs). Min (set xs) < xs ! j)"
proof -
  have m: "py_min xs = Min (set xs)" using assms by (rule py_min_Min)
  have mem: "py_min xs \<in> set xs" using Min_in [of "set xs"] assms m by simp
  have "Min (set xs) < xs ! j" if "j < first_index xs (py_min xs)" for j
  proof -
    have "j < length xs" using that first_index_less [OF mem] by simp
    then have "Min (set xs) \<le> xs ! j" by simp
    moreover have "xs ! j \<noteq> Min (set xs)" using first_index_before [OF that] m by simp
    ultimately show ?thesis by simp
  qed
  then show ?thesis using first_index_less [OF mem] first_index_nth [OF mem] m by simp
qed

subsection \<open>Shape of the profile\<close>

lemma hours_empty_iff:
  "sort (remdups (List.map_filter row_hour rs)) = [] \<longleftrightarrow> (\<forall>r \<in> set rs. row_hour r = None)"
proof -
  have "sort (remdups (List.map_filter row_hour rs)) = [] \<longleftrightarrow> List.map_filter row_hour rs = []"
    by (metis length_0_conv length_sort remdups_eq_nil_iff)
  also have "\<dots> \<longleftrightarrow> (\<forall>r \<in> set rs. row_hour r = None)"
    by (simp add: map_filter_def filter_empty_conv)
  finally show ?thesis .
qed

lemma set_map_filter: "set (List.map_filter f xs) = {y. \<exists>x \<in> set xs. f x = Some y}"
  by (induction xs) (auto simp: map_filter_simps split: option.splits)

text \<open>
  C5. The profile should cover all 24 hours, an hour without records carrying load 0;
  \<^verbatim>\<open>plot_load_comparison\<close> of the same module draws the loads of the profile against
  the 24 hours of \<^verbatim>\<open>range(24)\<close>. On \<^const>\<open>two_sessions\<close>, whose records fall in
  hours 3 and 7, the code returns a profile of two bins: the other twenty-two hours are
  absent, not zero. (The ratio it reports is 1.33, the quotient 4/3 rounded to two
  decimals.)
\<close>

theorem analyze_load_profile_two_sessions:
  "analyze_load_profile two_sessions =
     Inr (Some \<lparr>hourly_profile = [\<lparr>hour_of_day = 3, load = 1, load_pct = Some (3333 / 100)\<rparr>,
                                  \<lparr>hour_of_day = 7, load = 2, load_pct = Some (6667 / 100)\<rparr>],
                peak_hour = 7, off_peak_hour = 3, peak_to_avg_ratio = Some (133 / 100)\<rparr>)"
  by code_simp

text \<open>
  What the code does return, for a table that has the hour column and a row whose hour is
  known: one bin per distinct known hour, in ascending order, each with that hour's summed
  energy or record count; the hour of the first bin of maximal load, that of the first bin
  of minimal load, and maximum over mean rounded to two decimals.
\<close>

lemma analyze_load_profile_result:
  assumes col: "''hour_of_day'' \<in> set (columns df)"
    and ne: "\<exists>r \<in> set (rows df). row_hour r \<noteq> None"
  shows "\<exists>r. analyze_load_profile df = Inr (Some r)
    \<and> map hour_of_day (hourly_profile r)
        = sorted_list_of_set {h. \<exists>u \<in> set (rows df). row_hour u = Some h}
    \<and> map load (hourly_profile r)
        = map (hour_load (find (\<lambda>c. c \<in> set (columns df)) energy_candidates) (rows df))
            (map hour_of_day (hourly_profile r))
    \<and> (\<exists>i < length (hourly_profile r).
          peak_hour r = hour_of_day (hourly_profile r ! i)
          \<and> load (hourly_profile r ! i) = Max (load ` set (hourly_profile r))
          \<and> (\<forall>j < i. load (hourly_profile r ! j) < Max (load ` set (hourly_profile r))))
    \<and> (\<exists>i < length (hourly_profile r).
          off_peak_hour r = hour_of_day (hourly_profile r ! i)
          \<and> load (hourly_profile r ! i) = Min (load ` set (hourly_profile r))
          \<and> (\<forall>j < i. Min (load ` set (hourly_profile r)) < load (hourly_profile r ! j)))
    \<and> peak_to_avg_ratio r
        = (if np_mean (map load (hourly_profile r)) = 0 then None
           else Some (py_round (Max (load ` set (hourly_profile r))
                                 / np_mean (map load (hourly_profile r))) 2))"
proof -
  define ec where "ec = find (\<lambda>c. c \<in> set (columns df)) energy_candidates"
  define hours where "hours = sort (remdups (List.map_filter row_hour (rows df)))"
  define loads where "loads = map (hour_load ec (rows df)) hours"
  define hourly where "hourly = map (\<lambda>h. \<lparr>hour_of_day = h,
        load = hour_load ec (rows df) h,
        load_pct = (if sum_list loads = 0 then None
                    else Some (py_round (hour_load ec (rows df) h / sum_list loads * 100) 2))\<rparr>) hours"
  define r where "r = \<lparr>hourly_profile = hourly,
      peak_hour = hours ! first_index loads (py_max loads),
      off_peak_hour = hours ! first_index loads (py_min loads),
      peak_to_avg_ratio = map_option (\<lambda>x. py_round x 2)
        (if np_mean loads = 0 then None else Some (py_max loads / np_mean loads))\<rparr>"
  have hs: "hours = sorted_list_of_set {h. \<exists>u \<in> set (rows df). row_hour u = Some h}"
  proof -
    have "hours = sorted_list_of_set (set (List.map_filter row_hour (rows df)))"
      unfolding hours_def sorted_list_of_set_sort_remdups ..
    moreover have "set (List.map_filter row_hour (rows df))
                     = {h. \<exists>u \<in> set (rows df). row_hour u = Some h}"
      by (rule set_map_filter)
    ultimately show ?thesis by simp
  qed
  have hne: "hours \<noteq> []" using ne by (simp add: hours_def hours_empty_iff)
  have lne: "loads \<noteq> []" using hne by (simp add: loads_def)
  have len: "length loads = length hours" "length hourly = length hours"
    by (simp_all add: loads_def hourly_def)
  have mh: "map hour_of_day hourly = hours" by (simp add: hourly_def comp_def)
  have ml: "map load hourly = loads" by (simp add: hourly_def loads_def comp_def)
  have sl: "load ` set hourly = set loads" using ml by (metis set_map)
  have nh: "hour_of_day (hourly ! i) = hours ! i" if "i < length hours" for i
    using that by (simp add: hourly_def)
  have nl: "load (hourly ! i) = loads ! i" if "i < length hours" for i
    using that by (simp add: hourly_def loads_def)
  have res: "analyze_load_profile df = Inr (Some r)"
    using col hne
    by (simp add: analyze_load_profile_def Let_def r_def hourly_def loads_def hours_def ec_def)
  have pk: "\<exists>i < length hourly. peak_hour r = hour_of_day (hourly ! i)
          \<and> load (hourly ! i) = Max (load ` set hourly)
          \<and> (\<forall>j < i. load (hourly ! j) < Max (load ` set hourly))"
    using first_max [OF lne] len nh nl
    by (intro exI [of _ "first_index loads (py_max loads)"]) (simp add: r_def sl)
  have op: "\<exists>i < length hourly. off_peak_hour r = hour_of_day (hourly ! i)
          \<and> load (hourly ! i) = Min (load ` set hourly)
          \<and> (\<forall>j < i. Min (load ` set hourly) < load (hourly ! j))"
    using first_min [OF lne] len nh nl
    by (intro exI [of _ "first_index loads (py_min loads)"]) (simp add: r_def sl)
  have ra: "peak_to_avg_ratio r
        = (if np_mean (map load hourly) = 0 then None
           else Some (py_round (Max (load ` set hourly) / np_mean (map load hourly)) 2))"
    using lne by (simp add: r_def ml sl py_max_Max)
  have hp: "hourly_profile r = hourly" by (simp add: r_def)
  have ml2: "map load hourly = map (hour_load ec (rows df)) (map hour_of_day hourly)"
    by (simp only: ml mh loads_def)
  show ?thesis
    using res mh ml2 pk op ra unfolding hp [symmetric] hs ec_def
    by blast
qed

subsection \<open>The missing hour column\<close>

text \<open>
  C8 as stated fails: on a table without the hour column the call raises nothing and
  returns \<^verbatim>\<open>None\<close>.
\<close>

theorem analyze_load_profile_no_error: "analyze_load_profile no_hour_column = Inr None"
  by code_simp

text \<open>
  C8, amended. On a table without the hour column the call raises nothing and returns
  \<^verbatim>\<open>None\<close>; and \<^verbatim>\<open>None\<close> is returned only then.
\<close>

theorem analyze_load_profile_none_iff:
  "analyze_load_profile df = Inr None \<longleftrightarrow> ''hour_of_day'' \<notin> set (columns df)"
  by (simp add: analyze_load_profile_def Let_def)

theorem analyze_load_profile_none_iff_witness:
  "''hour_of_day'' \<notin> set (columns no_hour_column)
   \<and> analyze_load_profile no_hour_column = Inr None
   \<and> ''hour_of_day'' \<in> set (columns two_sessions)
   \<and> analyze_load_profile two_sessions \<noteq> Inr None"
  using analyze_load_profile_none_iff [of no_hour_column]
    analyze_load_profile_none_iff [of two_sessions]
  by (simp add: no_hour_column_def two_sessions_def)

text \<open>
  With the column present the call raises exactly when no row has a known hour: the
  grouped table is then empty and \<^verbatim>\<open>idxmax\<close> fails.
\<close>

lemma analyze_load_profile_raises_iff:
  "(\<exists>e. analyze_load_profile df = Inl e)
     \<longleftrightarrow> ''hour_of_day'' \<in> set (columns df) \<and> (\<forall>r \<in> set (rows df). row_hour r = None)"
  using hours_empty_iff [of "rows df"]
  by (auto simp: analyze_load_profile_def Let_def)

lemma analyze_load_profile_unknown_hour: "analyze_load_profile unknown_hour = Inl ValueError"
  by code_simp

section \<open>Choice of the cluster count\<close>

text \<open>
  C6 as stated fails. With thirteen stations the claim's range ends at
  \<open>min(12, 13 - 1) = 12\<close>; the code scores the counts 2 to 11 only, so with a score that
  grows with the count it selects 11 and never looks at 12.
\<close>

theorem run_kmeans_skips_twelve:
  "run_kmeans growing_score thirteen_stations 6 None =
     Inr (Some \<lparr>optimal_k = 11, silhouette_score = 11 / 100,
                elbow_k = [2, 3, 4, 5, 6, 7, 8, 9, 10, 11],
                elbow_silhouette = [2 / 100, 3 / 100, 4 / 100, 5 / 100, 6 / 100, 7 / 100,
                                    8 / 100, 9 / 100, 10 / 100, 11 / 100]\<rparr>)"
  by code_simp

lemma score_all_defined:
  "\<forall>k \<in> set ks. \<exists>v. f k = Inr v
     \<Longrightarrow> score_all f ks acc = Inr (acc @ map (projr \<circ> f) ks)"
proof (induction ks arbitrary: acc)
  case Nil
  then show ?case by simp
next
  case (Cons k ks)
  from Cons.prems obtain v where v: "f k = Inr v" by auto
  have "\<forall>k \<in> set ks. \<exists>v. f k = Inr v" using Cons.prems by simp
  from Cons.IH [OF this, of "acc @ [v]"] v show ?case by simp
qed

lemma score_all_raises:
  "k \<in> set ks \<Longrightarrow> f k = Inl e \<Longrightarrow> \<exists>e'. score_all f ks acc = Inl e'"
proof (induction ks arbitrary: acc)
  case Nil
  then show ?case by simp
next
  case (Cons a ks)
  show ?case
  proof (cases "f a")
    case (Inl e')
    then show ?thesis by simp
  next
    case (Inr v)
    with Cons.prems have "k \<in> set ks" by auto
    from Cons.IH [OF this Cons.prems(2), of "acc @ [v]"] Inr show ?thesis by simp
  qed
qed

lemma run_kmeans_default:
  assumes "''latitude'' \<in> set (columns df)" "''longitude'' \<in> set (columns df)"
  shows "run_kmeans score df n_clusters None =
     (let X = filter (\<lambda>r. r ''latitude'' \<noteq> None \<and> r ''longitude'' \<noteq> None) (rows df);
          K = [2..<min 12 (length X)]
      in case score_all (score X) K [] of
           Inl e \<Rightarrow> Inl e
         | Inr sil \<Rightarrow>
             if sil = [] then Inl ValueError
             else Inr (Some \<lparr>optimal_k = K ! first_index sil (py_max sil),
                             silhouette_score = py_round (py_max sil) 4,
                             elbow_k = K, elbow_silhouette = sil\<rparr>))"
  unfolding run_kmeans_def Let_def using assms by (simp split: sum.splits)

text \<open>
  When a candidate's silhouette is undefined the call raises: three stations at one place
  have one candidate, 2, and the fit yields a single label.
\<close>

lemma run_kmeans_three_same: "run_kmeans growing_score three_same 6 None = Inl ValueError"
  by code_simp

lemma growing_score_defined: "silhouette_defined growing_score"
proof -
  have "\<exists>v. growing_score X k = Inr v"
    if "distinct (map coordinates X)" "2 \<le> k" "k < length X" for X k
  proof -
    have "length (remdups (map coordinates X)) = length X"
      using distinct_remdups_id [OF that(1)] by (metis length_map)
    then have "\<not> length (remdups (map coordinates X)) < 2" using that(2,3) by linarith
    then have "growing_score X k = Inr (real k / 100)" by (simp add: growing_score_def)
    then show ?thesis ..
  qed
  then show ?thesis unfolding silhouette_defined_def by blast
qed

text \<open>
  C6, amended. For a station table with both coordinate columns whose \<open>N \<ge> 3\<close> complete
  rows lie at distinct places, every cluster count from 2 up to and including
  \<open>min(11, N - 1)\<close> is scored, and the selected count is the smallest candidate whose
  score is the maximum. The theorem takes from the library that the silhouette of the fit
  is defined on such rows (\<^const>\<open>silhouette_defined\<close>).
\<close>

theorem run_kmeans_best_k:
  assumes "''latitude'' \<in> set (columns df)" "''longitude'' \<in> set (columns df)"
    and X: "X = filter (\<lambda>r. r ''latitude'' \<noteq> None \<and> r ''longitude'' \<noteq> None) (rows df)"
    and n: "3 \<le> length X"
    and dist: "distinct (map coordinates X)"
    and lib: "silhouette_defined score"
  shows "\<exists>r. run_kmeans score df n_clusters None = Inr (Some r)
    \<and> elbow_k r = [2..<Suc (min 11 (length X - 1))]
    \<and> map (score X) (elbow_k r) = map Inr (elbow_silhouette r)
    \<and> optimal_k r \<in> set (elbow_k r)
    \<and> score X (optimal_k r) = Inr (Max (set (elbow_silhouette r)))
    \<and> (\<forall>k \<in> set (elbow_k r). k < optimal_k r
          \<longrightarrow> (\<exists>v. score X k = Inr v \<and> v < Max (set (elbow_silhouette r))))"
proof -
  define K where "K = [2..<min 12 (length X)]"
  define sil where "sil = map (projr \<circ> score X) K"
  define i where "i = first_index sil (py_max sil)"
  define r where "r = \<lparr>optimal_k = K ! i, silhouette_score = py_round (py_max sil) 4,
                         elbow_k = K, elbow_silhouette = sil\<rparr>"
  have Kne: "K \<noteq> []" using n by (auto simp: K_def)
  have sne: "sil \<noteq> []" using Kne by (simp add: sil_def)
  have def: "\<exists>v. score X k = Inr v" if "k \<in> set K" for k
  proof -
    from that have "2 \<le> k" "k < length X" by (auto simp: K_def)
    with dist lib show ?thesis unfolding silhouette_defined_def by blast
  qed
  have val: "score X k = Inr ((projr \<circ> score X) k)" if "k \<in> set K" for k
    using def [OF that] by auto
  have all: "score_all (score X) K [] = Inr sil"
    using score_all_defined [of K "score X" "[]"] def by (simp add: sil_def)
  have res: "run_kmeans score df n_clusters None = Inr (Some r)"
    unfolding run_kmeans_default [OF assms(1,2)] Let_def X [symmetric] K_def [symmetric]
    using sne by (simp add: all r_def i_def)
  have Keq: "K = [2..<Suc (min 11 (length X - 1))]"
  proof -
    have "min 12 (length X) = Suc (min 11 (length X - 1))" using n by auto
    then show ?thesis by (simp add: K_def)
  qed
  from first_max [OF sne] have il: "i < length sil"
    and im: "sil ! i = Max (set sil)" and ib: "\<forall>j<i. sil ! j < Max (set sil)"
    by (simp_all add: i_def)
  have lK: "length sil = length K" by (simp add: sil_def)
  have mem: "K ! i \<in> set K" using il lK by simp
  have sn: "sil ! j = (projr \<circ> score X) (K ! j)" if "j < length K" for j
    using that by (simp add: sil_def)
  have sc: "score X (K ! i) = Inr (Max (set sil))"
    using val [OF mem] sn [of i] il lK im by simp
  have before: "\<exists>v. score X k = Inr v \<and> v < Max (set sil)" if "k \<in> set K" "k < K ! i" for k
  proof -
    from that(1) obtain j where j: "j < length K" "K ! j = k" by (auto simp: in_set_conv_nth)
    have "sorted K" by (simp add: K_def)
    have "j < i"
    proof (rule ccontr)
      assume "\<not> j < i"
      then have "i \<le> j" by simp
      with \<open>sorted K\<close> j(1) have "K ! i \<le> K ! j" by (simp add: sorted_nth_mono)
      with that(2) j(2) show False by simp
    qed
    with ib have "sil ! j < Max (set sil)" by simp
    then have "(projr \<circ> score X) k < Max (set sil)" using sn [OF j(1)] j(2) by simp
    with val [OF that(1)] show ?thesis by blast
  qed
  have ms: "map (score X) K = map Inr sil"
    unfolding sil_def map_map by (rule map_cong [OF refl]) (use val in simp)
  have f: "elbow_k r = K" "elbow_silhouette r = sil" "optimal_k r = K ! i"
    by (simp_all add: r_def)
  have e1: "elbow_k r = [2..<Suc (min 11 (length X - 1))]" using Keq f(1) by simp
  have e2: "map (score X) (elbow_k r) = map Inr (elbow_silhouette r)" using ms by (simp only: f)
  have e3: "optimal_k r \<in> set (elbow_k r)" using mem by (simp only: f)
  have e4: "score X (optimal_k r) = Inr (Max (set (elbow_silhouette r)))"
    using sc by (simp only: f)
  have e5: "\<forall>k \<in> set (elbow_k r). k < optimal_k r
          \<longrightarrow> (\<exists>v. score X k = Inr v \<and> v < Max (set (elbow_silhouette r)))"
    using before by (simp only: f) blast
  show ?thesis using res e1 e2 e3 e4 e5 by blast
qed

theorem run_kmeans_best_k_witness:
  "''latitude'' \<in> set (columns thirteen_stations)
   \<and> ''longitude'' \<in> set (columns thirteen_stations)
   \<and> 3 \<le> length (filter (\<lambda>r. r ''latitude'' \<noteq> None \<and> r ''longitude'' \<noteq> None)
                      (rows thirteen_stations))
   \<and> distinct (map coordinates
                  (filter (\<lambda>r. r ''latitude'' \<noteq> None \<and> r ''longitude'' \<noteq> None)
                      (rows thirteen_stations)))
   \<and> silhouette_defined growing_score
   \<and> (\<exists>r. run_kmeans growing_score thirteen_stations 6 None = Inr (Some r)
         \<and> optimal_k r \<in> set (elbow_k r))"
proof -
  have 1: "''latitude'' \<in> set (columns thirteen_stations)"
    by (simp add: thirteen_stations_def)
  have 2: "''longitude'' \<in> set (columns thirteen_stations)"
    by (simp add: thirteen_stations_def)
  have 3: "3 \<le> length (filter (\<lambda>r. r ''latitude'' \<noteq> None \<and> r ''longitude'' \<noteq> None)
                      (rows thirteen_stations))"
    by code_simp
  have 4: "distinct (map coordinates
                  (filter (\<lambda>r. r ''latitude'' \<noteq> None \<and> r ''longitude'' \<noteq> None)
                      (rows thirteen_stations)))"
    by code_simp
  note 5 = growing_score_defined
  from run_kmeans_best_k [OF 1 2 refl 3 4 5, of 6]
  show ?thesis using 1 2 3 4 5 by blast
qed

section \<open>Gap detection\<close>

subsection \<open>The haversine distance is a distance\<close>

lemma sin_half_sq:
  fixes x :: real
  shows "sin (x / 2) * sin (x / 2) = (1 - cos x) / 2"
proof -
  have "cos x = cos (2 * (x / 2))" by simp
  also have "\<dots> = 1 - 2 * (sin (x / 2))\<^sup>2" by (rule cos_double_sin)
  finally show ?thesis by (simp add: power2_eq_square)
qed

lemma haversine_arg:
  fixes a b c d :: real
  shows "sin ((a - b) / 2) * sin ((a - b) / 2) + cos a * cos b * sin ((c - d) / 2) * sin ((c - d) / 2)
     = (1 - (sin a * sin b + cos a * cos b * cos (c - d))) / 2"
proof -
  define K where "K = cos a * cos b"
  define S where "S = sin a * sin b"
  define T where "T = cos (c - d)"
  have 1: "sin ((a - b) / 2) * sin ((a - b) / 2) = (1 - (K + S)) / 2"
    by (simp add: sin_half_sq cos_diff K_def S_def)
  have 2: "sin ((c - d) / 2) * sin ((c - d) / 2) = (1 - T) / 2"
    by (simp add: sin_half_sq T_def)
  have "sin ((a - b) / 2) * sin ((a - b) / 2)
          + cos a * cos b * sin ((c - d) / 2) * sin ((c - d) / 2)
        = sin ((a - b) / 2) * sin ((a - b) / 2) + K * (sin ((c - d) / 2) * sin ((c - d) / 2))"
    by (simp add: K_def)
  also have "\<dots> = (1 - (K + S)) / 2 + K * ((1 - T) / 2)" by (simp only: 1 2)
  also have "\<dots> = (1 - (S + K * T)) / 2" by (simp add: field_simps)
  finally show ?thesis by (simp only: K_def S_def T_def)
qed

lemma dot_bound:
  fixes a b t :: real
  shows "\<bar>sin a * sin b + cos a * cos b * cos t\<bar> \<le> 1"
proof -
  define A where "A = sin a * sin a"
  define B where "B = sin b * sin b"
  define C where "C = cos a * cos a"
  define D where "D = cos b * cos b"
  have s: "\<bar>sin a * sin b\<bar> \<le> (A + B) / 2"
    using sum_squares_bound [of "\<bar>sin a\<bar>" "\<bar>sin b\<bar>"]
    by (simp add: abs_mult power2_eq_square A_def B_def)
  have c: "\<bar>cos a * cos b\<bar> \<le> (C + D) / 2"
    using sum_squares_bound [of "\<bar>cos a\<bar>" "\<bar>cos b\<bar>"]
    by (simp add: abs_mult power2_eq_square C_def D_def)
  have "\<bar>cos a * cos b * cos t\<bar> = \<bar>cos a * cos b\<bar> * \<bar>cos t\<bar>" by (simp add: abs_mult)
  also have "\<dots> \<le> \<bar>cos a * cos b\<bar> * 1" by (intro mult_left_mono) auto
  finally have ct: "\<bar>cos a * cos b * cos t\<bar> \<le> \<bar>cos a * cos b\<bar>" by simp
  have p: "A + C = 1" "B + D = 1"
    using sin_cos_squared_add [of a] sin_cos_squared_add [of b]
    by (simp_all add: power2_eq_square A_def B_def C_def D_def)
  have t: "\<bar>sin a * sin b + cos a * cos b * cos t\<bar>
             \<le> \<bar>sin a * sin b\<bar> + \<bar>cos a * cos b * cos t\<bar>"
    by (rule abs_triangle_ineq)
  have "(A + B) / 2 + (C + D) / 2 = 1" using p by (simp add: field_simps)
  with s c ct t show ?thesis by linarith
qed

lemma haversine_nonneg: "0 \<le> haversine x1 x2"
proof -
  define h where "h = (1 - (sin (fst x1) * sin (fst x2)
                          + cos (fst x1) * cos (fst x2) * cos (snd x1 - snd x2))) / 2"
  have hv: "haversine x1 x2 = 2 * arcsin (sqrt h)"
    unfolding haversine_def Let_def haversine_arg h_def ..
  have b: "0 \<le> h" "h \<le> 1"
    using dot_bound [of "fst x1" "fst x2" "snd x1 - snd x2"] by (simp_all add: h_def abs_le_iff)
  then have "0 \<le> sqrt h" "sqrt h \<le> 1" by simp_all
  then have "0 \<le> arcsin (sqrt h)" by (simp add: arcsin_nonneg)
  then show ?thesis by (simp add: hv)
qed

lemma haversine_same: "haversine x x = 0"
  by (simp add: haversine_def)

lemma haversine_lower:
  assumes c: "0 \<le> cos (fst x1) * cos (fst x2)"
    and d: "\<bar>fst x1 - fst x2\<bar> \<le> pi"
  shows "\<bar>fst x1 - fst x2\<bar> \<le> haversine x1 x2"
proof -
  define a where "a = (fst x1 - fst x2) / 2"
  define e where "e = cos (fst x1) * cos (fst x2) * sin ((snd x1 - snd x2) / 2) * sin ((snd x1 - snd x2) / 2)"
  define h where "h = sin a * sin a + e"
  have hv: "haversine x1 x2 = 2 * arcsin (sqrt h)"
    by (simp add: haversine_def Let_def h_def a_def e_def)
  have h1: "h = (1 - (sin (fst x1) * sin (fst x2)
                          + cos (fst x1) * cos (fst x2) * cos (snd x1 - snd x2))) / 2"
    unfolding h_def a_def e_def by (rule haversine_arg)
  have hle: "h \<le> 1"
    using dot_bound [of "fst x1" "fst x2" "snd x1 - snd x2"] by (simp add: h1 abs_le_iff)
  have e0: "0 \<le> e"
  proof -
    have "e = (cos (fst x1) * cos (fst x2)) * (sin ((snd x1 - snd x2) / 2) * sin ((snd x1 - snd x2) / 2))"
      by (simp add: e_def)
    then show ?thesis using c by simp
  qed
  have ab: "\<bar>a\<bar> \<le> pi / 2" using d by (simp add: a_def)
  have "\<bar>sin a\<bar> = sqrt (sin a * sin a)" by simp
  also have "\<dots> \<le> sqrt h" unfolding h_def using e0 by (intro real_sqrt_le_mono) simp
  finally have le: "\<bar>sin a\<bar> \<le> sqrt h" .
  have s1: "sqrt h \<le> 1" using hle by (simp add: real_sqrt_le_1_iff)
  have "\<bar>a\<bar> = arcsin (sin \<bar>a\<bar>)" using ab by (simp add: arcsin_sin)
  also have "sin \<bar>a\<bar> = \<bar>sin a\<bar>"
  proof (cases "0 \<le> a")
    case True
    then have "0 \<le> sin a" using ab by (intro sin_ge_zero) auto
    then show ?thesis using True by simp
  next
    case False
    then have "0 \<le> sin (- a)" using ab by (intro sin_ge_zero) auto
    then show ?thesis using False by simp
  qed
  also have "arcsin \<bar>sin a\<bar> \<le> arcsin (sqrt h)"
    using le s1 by (intro arcsin_le_arcsin) auto
  finally have "\<bar>a\<bar> \<le> arcsin (sqrt h)" .
  then show ?thesis by (simp add: hv a_def)
qed

subsection \<open>The selected rows\<close>

lemma mask_filter: "map fst (filter snd (zip xs (map P xs))) = filter P xs"
  by (induction xs) simp_all

lemma count_zero_iff:
  "query_radius_count tree r q = 0 \<longleftrightarrow> (\<forall>p \<in> set tree. r < haversine q p)"
  by (auto simp: query_radius_count_def filter_empty_conv not_le)

lemma check_array_finite:
  assumes "rs \<noteq> []" "all_finite rs"
  shows "check_array (map to_radians rs) = Inr (map point_rad rs)"
proof -
  have f: "latitude r \<noteq> None \<and> longitude r \<noteq> None" if "r \<in> set rs" for r
    using assms(2) that by (simp add: all_finite_def list_all_iff)
  have 1: "\<not> list_ex (\<lambda>p. fst p = None \<or> snd p = None) (map to_radians rs)"
    using f by (auto simp: list_ex_iff to_radians_def)
  have "(the (fst (to_radians r)), the (snd (to_radians r))) = point_rad r" if "r \<in> set rs" for r
    using f [OF that] by (auto simp: to_radians_def point_rad_def)
  then have 2: "map (\<lambda>p. (the (fst p), the (snd p))) (map to_radians rs) = map point_rad rs"
    by simp
  show ?thesis using assms(1) 1 2 by (simp add: check_array_def)
qed

lemma check_array_missing:
  assumes "rs = [] \<or> \<not> all_finite rs"
  shows "check_array (map to_radians rs) = Inl ValueError"
proof (cases "rs = []")
  case True
  then show ?thesis by (simp add: check_array_def)
next
  case False
  with assms have "\<not> all_finite rs" by simp
  then obtain r where "r \<in> set rs" "latitude r = None \<or> longitude r = None"
    by (auto simp: all_finite_def list_all_iff)
  then have "list_ex (\<lambda>p. fst p = None \<or> snd p = None) (map to_radians rs)"
    by (auto simp: list_ex_iff to_radians_def)
  then show ?thesis by (simp add: check_array_def)
qed

lemma find_gaps_rows:
  assumes "has_coordinates st" "has_coordinates dm" "rows st \<noteq> []" "rows dm \<noteq> []"
    and "all_finite (rows st)" "all_finite (rows dm)"
  shows "find_gaps self st dm =
           Inr (dm\<lparr>rows := filter (is_gap (coverage_radius_km self) st) (rows dm)\<rparr>,
                self\<lparr>gap_points :=
                  Some (dm\<lparr>rows := filter (is_gap (coverage_radius_km self) st) (rows dm)\<rparr>)\<rparr>)"
proof -
  have s: "check_array (map to_radians (rows st)) = Inr (map point_rad (rows st))"
    using assms(3,5) by (rule check_array_finite)
  have d: "check_array (map to_radians (rows dm)) = Inr (map point_rad (rows dm))"
    using assms(4,6) by (rule check_array_finite)
  have "map fst (filter snd (zip (rows dm)
            (map (\<lambda>c. c = 0)
               (map (query_radius_count (map point_rad (rows st)) (coverage_radius_km self / 6371))
                  (map point_rad (rows dm))))))
        = filter (is_gap (coverage_radius_km self) st) (rows dm)"
    using mask_filter [of "rows dm" "is_gap (coverage_radius_km self) st"]
    by (simp add: is_gap_def [abs_def] comp_def)
  then show ?thesis
    using assms(1,2) by (simp add: find_gaps_def Let_def s d)
qed

lemma find_gaps_missing_coordinate:
  assumes "has_coordinates st" "has_coordinates dm"
    and "\<not> all_finite (rows st) \<or> \<not> all_finite (rows dm)"
  shows "find_gaps self st dm = Inl ValueError"
proof (cases "rows st = [] \<or> \<not> all_finite (rows st)")
  case True
  then have "check_array (map to_radians (rows st)) = Inl ValueError"
    by (rule check_array_missing)
  then show ?thesis using assms(1,2) by (simp add: find_gaps_def Let_def)
next
  case False
  then have "check_array (map to_radians (rows st)) = Inr (map point_rad (rows st))"
    by (intro check_array_finite) simp_all
  moreover have "check_array (map to_radians (rows dm)) = Inl ValueError"
    using False assms(3) by (intro check_array_missing) simp
  ultimately show ?thesis using assms(1,2) by (simp add: find_gaps_def Let_def)
qed

text \<open>
  C1. The gaps are the demand points with no station within the radius, and with no
  stations at all every demand point should be a gap. For non-empty tables the code does
  select exactly the rows that pass \<^const>\<open>is_gap\<close>, in their order (lemma
  \<open>find_gaps_rows\<close>). With an empty station table it does not return the demand table:
  the ball tree cannot be built and the call raises.
\<close>

theorem find_gaps_empty_stations: "find_gaps (init 5 5) no_stations demand_A = Inl ValueError"
  by (simp add: find_gaps_def no_stations_def demand_A_def has_coordinates_def check_array_def)

theorem find_gaps_empty_stations_witness:
  "has_coordinates no_stations \<and> has_coordinates demand_A \<and> rows no_stations = []
   \<and> rows demand_A \<noteq> []
   \<and> find_gaps (init 5 5) no_stations demand_A = Inl ValueError"
  using find_gaps_empty_stations
  by (simp add: no_stations_def demand_A_def has_coordinates_def)

lemma far_by_latitude:
  assumes a: "\<bar>a\<bar> \<le> 90" and b: "\<bar>b\<bar> \<le> 90" and d: "1 \<le> \<bar>a - b\<bar>"
  shows "5 / 6371 < haversine (radians a, radians c) (radians b, radians e)"
proof -
  let ?x1 = "(radians a, radians c)"
  let ?x2 = "(radians b, radians e)"
  have p2: "2 \<le> pi" by (rule pi_ge_two)
  have p0: "0 < pi" by simp
  have ra: "\<bar>radians a\<bar> \<le> pi / 2"
  proof -
    have "\<bar>radians a\<bar> = \<bar>a\<bar> * pi / 180" using p0 by (simp add: radians_def abs_mult)
    also have "\<dots> \<le> 90 * pi / 180" using a p0 by (intro divide_right_mono mult_right_mono) simp_all
    finally show ?thesis by simp
  qed
  have rb: "\<bar>radians b\<bar> \<le> pi / 2"
  proof -
    have "\<bar>radians b\<bar> = \<bar>b\<bar> * pi / 180" using p0 by (simp add: radians_def abs_mult)
    also have "\<dots> \<le> 90 * pi / 180" using b p0 by (intro divide_right_mono mult_right_mono) simp_all
    finally show ?thesis by simp
  qed
  have c1: "0 \<le> cos (radians a)" using ra by (intro cos_ge_zero) (simp_all add: abs_le_iff)
  have c2: "0 \<le> cos (radians b)" using rb by (intro cos_ge_zero) (simp_all add: abs_le_iff)
  have df: "\<bar>radians a - radians b\<bar> = \<bar>a - b\<bar> * pi / 180"
  proof -
    have "radians a - radians b = (a - b) * (pi / 180)" by (simp add: radians_def field_simps)
    then have "\<bar>radians a - radians b\<bar> = \<bar>a - b\<bar> * \<bar>pi / 180\<bar>"
      by (simp only: abs_mult)
    also have "\<bar>pi / 180\<bar> = pi / 180" using p0 by simp
    finally show ?thesis by simp
  qed
  have "\<bar>fst ?x1 - fst ?x2\<bar> \<le> haversine ?x1 ?x2"
  proof (rule haversine_lower)
    show "0 \<le> cos (fst ?x1) * cos (fst ?x2)" using c1 c2 by simp
    show "\<bar>fst ?x1 - fst ?x2\<bar> \<le> pi" using ra rb by simp
  qed
  then have h: "\<bar>a - b\<bar> * pi / 180 \<le> haversine ?x1 ?x2" using df by simp
  have "1 * pi / 180 \<le> \<bar>a - b\<bar> * pi / 180"
    using d p0 by (intro divide_right_mono mult_right_mono) simp_all
  moreover have "5 / 6371 < 1 * pi / 180" using p2 by simp
  ultimately show ?thesis using h by linarith
qed

lemma tables_A:
  "has_coordinates stations_A" "has_coordinates demand_A"
  "rows stations_A \<noteq> []" "rows demand_A \<noteq> []"
  "all_finite (rows stations_A)" "all_finite (rows demand_A)"
  by (simp_all add: has_coordinates_def stations_A_def demand_A_def all_finite_def
      del: not_None_eq)

lemma gaps_A:
  assumes "0 \<le> r" "r \<le> 5"
  shows "filter (is_gap r stations_A) (rows demand_A) = rows gap_A"
proof -
  have far: "5 / 6371 < haversine (radians (1297 / 100), radians (7759 / 100))
                                 (radians (287 / 10), radians (771 / 10))"
    by (rule far_by_latitude) simp_all
  have "r / 6371 \<le> 5 / 6371" using assms(2) by simp
  then have g2: "is_gap r stations_A
               \<lparr>latitude = Some (1297 / 100), longitude = Some (7759 / 100),
                 demand_score = 8, cluster = None\<rparr>"
    using far by (simp add: is_gap_def count_zero_iff stations_A_def point_rad_def)
  have "0 \<le> r / 6371" using assms(1) by simp
  then have g1: "\<not> is_gap r stations_A
               \<lparr>latitude = Some (287 / 10), longitude = Some (771 / 10),
                 demand_score = 5, cluster = None\<rparr>"
    by (simp add: is_gap_def count_zero_iff stations_A_def point_rad_def haversine_same not_less)
  show ?thesis using g1 g2 by (simp add: demand_A_def gap_A_def)
qed

lemma find_gaps_A_radius:
  assumes "0 \<le> r" "r \<le> 5"
  shows "find_gaps (init n r) stations_A demand_A
           = Inr (gap_A, (init n r)\<lparr>gap_points := Some gap_A\<rparr>)"
proof -
  have c: "coverage_radius_km (init n r :: demand_row frame clusterer) = r" by (simp add: init_def)
  have "demand_A\<lparr>rows := filter (is_gap r stations_A) (rows demand_A)\<rparr> = gap_A"
    using gaps_A [OF assms] by (simp add: demand_A_def gap_A_def)
  then show ?thesis
    using find_gaps_rows [OF tables_A, of "init n r"] by (simp add: c)
qed


subsection \<open>A radius that is not positive\<close>

lemma is_gap_negative:
  assumes "r < 0"
  shows "is_gap r st d"
proof -
  have "r / 6371 < 0" using assms by simp
  then have "r / 6371 < haversine (point_rad d) p" for p
    using haversine_nonneg [of "point_rad d" p] by linarith
  then show ?thesis by (simp add: is_gap_def count_zero_iff)
qed

text \<open>
  C7 as stated fails: with radius 0 the call raises nothing. It returns the demand point in
  Bengaluru as the only gap, the point at the station being at distance 0 from it.
\<close>

theorem find_gaps_radius_zero:
  "find_gaps (init 1 0) stations_A demand_A = Inr (gap_A, (init 1 0)\<lparr>gap_points := Some gap_A\<rparr>)"
  by (rule find_gaps_A_radius) simp_all

text \<open>
  C7, amended. No radius is rejected. For non-empty tables with their coordinate columns
  and no missing coordinate, a call with a radius of zero or less returns normally and
  stores its result: the gaps are the demand points whose distance to every station
  exceeds the radius, which for a negative radius is the whole demand table. (A missing
  coordinate makes the ball tree raise, whatever the radius: lemma
  \<open>find_gaps_missing_coordinate\<close>.)
\<close>

theorem find_gaps_nonpositive_radius:
  assumes "has_coordinates st" "has_coordinates dm" "rows st \<noteq> []" "rows dm \<noteq> []"
    and "all_finite (rows st)" "all_finite (rows dm)"
    and "coverage_radius_km self \<le> 0"
  shows "\<exists>g. find_gaps self st dm = Inr (g, self\<lparr>gap_points := Some g\<rparr>)
           \<and> (coverage_radius_km self < 0 \<longrightarrow> g = dm)
           \<and> columns g = columns dm
           \<and> rows g = filter (\<lambda>d. \<forall>s \<in> set (rows st).
                                  coverage_radius_km self / 6371
                                    < haversine (point_rad d) (point_rad s)) (rows dm)"
proof -
  let ?g = "dm\<lparr>rows := filter (is_gap (coverage_radius_km self) st) (rows dm)\<rparr>"
  have r: "find_gaps self st dm = Inr (?g, self\<lparr>gap_points := Some ?g\<rparr>)"
    using assms(1-6) by (rule find_gaps_rows)
  have "?g = dm" if "coverage_radius_km self < 0"
  proof -
    have "filter (is_gap (coverage_radius_km self) st) (rows dm) = rows dm"
      by (rule filter_True) (simp add: is_gap_negative [OF that])
    then show ?thesis by simp
  qed
  moreover have "rows ?g = filter (\<lambda>d. \<forall>s \<in> set (rows st).
                                  coverage_radius_km self / 6371
                                    < haversine (point_rad d) (point_rad s)) (rows dm)"
    by (simp add: is_gap_def [abs_def] count_zero_iff)
  moreover have "columns ?g = columns dm" by simp
  ultimately show ?thesis using r by blast
qed

theorem find_gaps_nonpositive_radius_witness:
  "has_coordinates stations_A \<and> has_coordinates demand_A
   \<and> rows stations_A \<noteq> [] \<and> rows demand_A \<noteq> []
   \<and> all_finite (rows stations_A) \<and> all_finite (rows demand_A)
   \<and> coverage_radius_km (init 1 (- 1) :: demand_row frame clusterer) \<le> 0
   \<and> find_gaps (init 1 (- 1)) stations_A demand_A
        = Inr (demand_A, (init 1 (- 1))\<lparr>gap_points := Some demand_A\<rparr>)"
proof -
  have 5: "coverage_radius_km (init 1 (- 1) :: demand_row frame clusterer) \<le> 0"
    by (simp add: init_def)
  have 6: "coverage_radius_km (init 1 (- 1) :: demand_row frame clusterer) < 0"
    by (simp add: init_def)
  from find_gaps_nonpositive_radius [OF tables_A 5] 6
  have "find_gaps (init 1 (- 1)) stations_A demand_A
          = Inr (demand_A, (init 1 (- 1))\<lparr>gap_points := Some demand_A\<rparr>)"
    by auto
  then show ?thesis using tables_A 5 by (intro conjI)
qed

lemma find_gaps_station_without_latitude:
  "find_gaps (init 1 0) station_without_latitude demand_A = Inl ValueError"
  by (rule find_gaps_missing_coordinate)
     (simp_all add: has_coordinates_def station_without_latitude_def demand_A_def all_finite_def
        del: not_None_eq)

section \<open>Placement\<close>

subsection \<open>Nothing to place\<close>

text \<open>
  C10. On a fresh object, and on the object left by a \<^verbatim>\<open>find_gaps\<close> call that found no
  gap, \<^verbatim>\<open>recommend_locations\<close> raises nothing and returns the table with the columns
  latitude, longitude, priority_score and no rows, leaving the object as it was.
\<close>

theorem recommend_locations_without_gaps:
  "recommend_locations fit srt (init n r)
     = Inr (\<lparr>columns = [''latitude'', ''longitude'', ''priority_score''], rows = []\<rparr>, init n r)
   \<and> (\<forall>self st dm g self'.
         find_gaps self st dm = Inr (g, self') \<and> rows g = []
         \<longrightarrow> recommend_locations fit srt self'
               = Inr (\<lparr>columns = [''latitude'', ''longitude'', ''priority_score''], rows = []\<rparr>,
                      self'))"
proof -
  have "gap_points self' = Some g"
    if "find_gaps self st dm = Inr (g, self')" for self st dm g self'
    using that by (auto simp: find_gaps_def Let_def split: if_splits sum.splits)
  then show ?thesis
    by (auto simp: recommend_locations_def init_def empty_recommendations_def)
qed

lemma find_gaps_covered:
  "find_gaps (init 1 5) stations_A covered_demand
     = Inr (covered_demand\<lparr>rows := []\<rparr>,
            (init 1 5)\<lparr>gap_points := Some (covered_demand\<lparr>rows := []\<rparr>)\<rparr>)"
proof -
  have c: "coverage_radius_km (init 1 5 :: demand_row frame clusterer) = 5" by (simp add: init_def)
  have g1: "\<not> is_gap 5 stations_A
               \<lparr>latitude = Some (287 / 10), longitude = Some (771 / 10),
                 demand_score = 5, cluster = None\<rparr>"
    by (simp add: is_gap_def count_zero_iff stations_A_def point_rad_def haversine_same)
  have "find_gaps (init 1 5) stations_A covered_demand =
           Inr (covered_demand\<lparr>rows := filter (is_gap 5 stations_A) (rows covered_demand)\<rparr>,
                (init 1 5)\<lparr>gap_points :=
                   Some (covered_demand\<lparr>rows := filter (is_gap 5 stations_A) (rows covered_demand)\<rparr>)\<rparr>)"
    using find_gaps_rows [of stations_A covered_demand "init 1 5"]
    by (simp add: c has_coordinates_def stations_A_def covered_demand_def all_finite_def
        del: not_None_eq)
  moreover have "filter (is_gap 5 stations_A) (rows covered_demand) = []"
    using g1 by (simp add: covered_demand_def)
  ultimately show ?thesis by simp
qed

theorem recommend_locations_without_gaps_witness:
  "find_gaps (init 1 5) stations_A covered_demand
     = Inr (covered_demand\<lparr>rows := []\<rparr>,
            (init 1 5)\<lparr>gap_points := Some (covered_demand\<lparr>rows := []\<rparr>)\<rparr>)
   \<and> rows (covered_demand\<lparr>rows := []\<rparr>) = []
   \<and> recommend_locations lump_fit stable_sort_desc
        ((init 1 5)\<lparr>gap_points := Some (covered_demand\<lparr>rows := []\<rparr>)\<rparr>)
      = Inr (\<lparr>columns = [''latitude'', ''longitude'', ''priority_score''], rows = []\<rparr>,
             (init 1 5)\<lparr>gap_points := Some (covered_demand\<lparr>rows := []\<rparr>)\<rparr>)"
proof -
  let ?g = "covered_demand\<lparr>rows := []\<rparr>"
  let ?s = "(init 1 5)\<lparr>gap_points := Some ?g\<rparr>"
  have fg: "find_gaps (init 1 5) stations_A covered_demand = Inr (?g, ?s)"
    by (rule find_gaps_covered)
  have e: "rows ?g = []" by simp
  have "find_gaps (init 1 5) stations_A covered_demand = Inr (?g, ?s) \<and> rows ?g = []
          \<longrightarrow> recommend_locations lump_fit stable_sort_desc ?s
               = Inr (\<lparr>columns = [''latitude'', ''longitude'', ''priority_score''], rows = []\<rparr>, ?s)"
    using recommend_locations_without_gaps [of lump_fit stable_sort_desc 1 5, THEN conjunct2]
    by (elim allE) assumption
  with fg e show ?thesis by (intro conjI) (assumption, assumption, blast)
qed

subsection \<open>Sorting, labels and members\<close>


lemma labels_full:
  assumes "set labels = {..<k}"
  shows "sort (remdups labels) = [0..<k]"
proof -
  have "sort (remdups labels) = sorted_list_of_set (set labels)"
    by (simp add: sorted_list_of_set_sort_remdups)
  also have "\<dots> = sorted_list_of_set {0..<k}" using assms by (simp add: lessThan_atLeast0)
  also have "\<dots> = [0..<k]" by simp
  finally show ?thesis .
qed

lemma labels_partial:
  assumes "list_all (\<lambda>l. l < k) labels" "set labels \<noteq> {..<k}"
  shows "length (sort (remdups labels)) \<noteq> k"
proof -
  have "set labels \<subseteq> {..<k}" using assms(1) by (auto simp: list_all_iff)
  with assms(2) have "set labels \<subset> {..<k}" by blast
  then have "card (set labels) < card {..<k}" by (intro psubset_card_mono) simp_all
  then show ?thesis by (simp add: length_remdups_card_conv)
qed

lemma map2_upt:
  assumes "length cs = k"
  shows "map2 f cs (map g [0..<k]) = map (\<lambda>c. f (cs ! c) (g c)) [0..<k]"
  using assms by (intro nth_equalityI) simp_all

lemma members_nonempty:
  assumes "c \<in> set labels" "length labels = length xs"
  shows "members labels c xs \<noteq> []"
proof -
  from assms(1) obtain i where i: "i < length labels" "labels ! i = c"
    by (auto simp: in_set_conv_nth)
  then have "(xs ! i, c) \<in> set (zip xs labels)"
    using assms(2) by (auto simp: set_zip)
  then have "(xs ! i, c) \<in> set (filter (\<lambda>p. snd p = c) (zip xs labels))" by simp
  then show ?thesis unfolding members_def by (metis empty_iff empty_set map_is_Nil_conv)
qed

lemma check_array_coords:
  assumes "rs \<noteq> []" "all_finite rs"
  shows "check_array (map (\<lambda>r. (latitude r, longitude r)) rs) = Inr (map point_deg rs)"
proof -
  have f: "latitude r \<noteq> None \<and> longitude r \<noteq> None" if "r \<in> set rs" for r
    using assms(2) that by (simp add: all_finite_def list_all_iff)
  have 1: "\<not> list_ex (\<lambda>p. fst p = None \<or> snd p = None) (map (\<lambda>r. (latitude r, longitude r)) rs)"
    using f by (auto simp: list_ex_iff)
  have 2: "map (\<lambda>p. (the (fst p), the (snd p))) (map (\<lambda>r. (latitude r, longitude r)) rs)
             = map point_deg rs"
    by (simp add: point_deg_def [abs_def])
  show ?thesis using assms(1) 1 2 by (simp add: check_array_def)
qed

text \<open>The clustering path of \<^verbatim>\<open>recommend_locations\<close>, spelled out.\<close>

lemma recommend_locations_clustering:
  assumes gp: "gap_points self = Some gp" and ne: "rows gp \<noteq> []"
    and hc: "has_coordinates gp" and fin: "all_finite (rows gp)"
    and ds: "''demand_score'' \<in> set (columns gp)"
    and n: "0 < n_new_stations self"
    and fit: "fit (min (nat (n_new_stations self)) (length (rows gp))) (map point_deg (rows gp))
                = (labels, centers)"
  shows "recommend_locations fit srt self =
     Inr (\<lparr>columns = [''latitude'', ''longitude'', ''priority_score''],
            rows = srt (map2 (\<lambda>c p. \<lparr>latitude = Some (fst c), longitude = Some (snd c),
                                       priority_score = p\<rparr>)
                          centers
                          (if length (cluster_scores (rows gp) labels) = length centers
                           then cluster_scores (rows gp) labels
                           else replicate (length centers) 0))\<rparr>,
          self\<lparr>model_n_clusters := min (n_new_stations self) (int (length (rows gp))),
               gap_points := Some (with_clusters gp labels)\<rparr>)"
proof -
  define nc where "nc = min (n_new_stations self) (int (length (rows gp)))"
  have len0: "0 < length (rows gp)" using ne by simp
  have nc0: "0 < nc" using n len0 by (simp add: nc_def)
  have nck: "nat nc = min (nat (n_new_stations self)) (length (rows gp))"
  proof (cases "n_new_stations self \<le> int (length (rows gp))")
    case True
    then have "nat (n_new_stations self) \<le> length (rows gp)" by (simp add: nat_le_iff)
    with True show ?thesis by (simp add: nc_def min_def)
  next
    case False
    then have "\<not> nat (n_new_stations self) \<le> length (rows gp)" by (simp add: nat_le_iff)
    with False show ?thesis by (simp add: nc_def min_def)
  qed
  have cne: "columns gp \<noteq> []" using hc by (auto simp: has_coordinates_def)
  have ca: "check_array (map (\<lambda>r. (latitude r, longitude r)) (rows gp))
              = Inr (map point_deg (rows gp))"
    using ne fin by (rule check_array_coords)
  have fit': "fit (nat nc) (map point_deg (rows gp)) = (labels, centers)"
    using fit by (simp add: nck)
  show ?thesis
    unfolding recommend_locations_def gp option.case Let_def length_map nc_def [symmetric]
      ca sum.case fit' prod.case
    using ne cne hc ds nc0 by simp
qed

subsection \<open>The recommended sites\<close>

lemma recommend_sites:
  assumes gp: "gap_points self = Some gp" and ne: "rows gp \<noteq> []"
    and hc: "has_coordinates gp" and fin: "all_finite (rows gp)"
    and ds: "''demand_score'' \<in> set (columns gp)"
    and n: "0 < n_new_stations self"
    and coords: "coords = map point_deg (rows gp)"
    and k: "k = min (nat (n_new_stations self)) (length (rows gp))"
    and fit: "fit k coords = (labels, centers)"
    and ok: "kmeans_fit_ok k coords (labels, centers)"
    and srt: "sort_values_ok srt"
  shows "\<exists>recs self'. recommend_locations fit srt self = Inr (recs, self')
     \<and> columns recs = [''latitude'', ''longitude'', ''priority_score'']
     \<and> length (rows recs) = k \<and> descending (rows recs)
     \<and> (set labels = {..<k} \<longrightarrow>
          mset (rows recs) =
            mset (map (\<lambda>c. \<lparr>latitude = Some (fst (centroid (members labels c coords))),
                            longitude = Some (snd (centroid (members labels c coords))),
                            priority_score = sum_list (map demand_score (members labels c (rows gp)))\<rparr>)
                   [0..<k]))
     \<and> (set labels \<noteq> {..<k} \<longrightarrow>
          mset (rows recs) =
            mset (map (\<lambda>c. \<lparr>latitude = Some (fst (centers ! c)), longitude = Some (snd (centers ! c)),
                            priority_score = 0\<rparr>) [0..<k]))"
proof -
  define scores where "scores = cluster_scores (rows gp) labels"
  define priority where "priority = (if length scores = length centers then scores
                                      else replicate (length centers) 0)"
  define recommendations where "recommendations =
      map2 (\<lambda>c p. \<lparr>latitude = Some (fst c), longitude = Some (snd c), priority_score = p\<rparr>)
        centers priority"
  define self' where "self' = self\<lparr>model_n_clusters := min (n_new_stations self) (int (length (rows gp))),
                                  gap_points := Some (with_clusters gp labels)\<rparr>"
  define recs where "recs = \<lparr>columns = [''latitude'', ''longitude'', ''priority_score''],
                              rows = srt recommendations\<rparr>"
  have fit': "fit (min (nat (n_new_stations self)) (length (rows gp))) (map point_deg (rows gp))
                = (labels, centers)"
    using fit by (simp only: k coords)
  have res: "recommend_locations fit srt self = Inr (recs, self')"
    unfolding recs_def self'_def recommendations_def priority_def scores_def
    using gp ne hc fin ds n fit' by (rule recommend_locations_clustering)
  from ok have len: "length labels = length coords" "length centers = k"
    and lt: "list_all (\<lambda>l. l < k) labels"
    and cen: "\<And>c. c < k \<Longrightarrow> members labels c coords = []
                        \<or> centers ! c = centroid (members labels c coords)"
    by (simp_all add: kmeans_fit_ok_def list_all_iff)
  have full: "recommendations =
      map (\<lambda>c. \<lparr>latitude = Some (fst (centroid (members labels c coords))),
                            longitude = Some (snd (centroid (members labels c coords))),
                            priority_score = sum_list (map demand_score (members labels c (rows gp)))\<rparr>)
        [0..<k]" if f: "set labels = {..<k}"
  proof -
    have sc: "scores = map (\<lambda>c. sum_list (map demand_score (members labels c (rows gp)))) [0..<k]"
      by (simp add: scores_def cluster_scores_def labels_full [OF f])
    then have pr: "priority = map (\<lambda>c. sum_list (map demand_score (members labels c (rows gp)))) [0..<k]"
      by (simp add: priority_def len(2))
    have "recommendations =
        map (\<lambda>c. \<lparr>latitude = Some (fst (centers ! c)), longitude = Some (snd (centers ! c)),
                    priority_score = sum_list (map demand_score (members labels c (rows gp)))\<rparr>)
          [0..<k]"
      unfolding recommendations_def pr by (rule map2_upt) (rule len(2))
    also have "\<dots> = map (\<lambda>c. \<lparr>latitude = Some (fst (centroid (members labels c coords))),
                            longitude = Some (snd (centroid (members labels c coords))),
                            priority_score = sum_list (map demand_score (members labels c (rows gp)))\<rparr>)
        [0..<k]"
    proof (rule map_cong [OF refl])
      fix c assume "c \<in> set [0..<k]"
      then have ck: "c < k" by simp
      then have "c \<in> set labels" using f by simp
      then have "members labels c coords \<noteq> []" using len(1) by (rule members_nonempty)
      with cen [OF ck] have "centers ! c = centroid (members labels c coords)" by simp
      then show "\<lparr>latitude = Some (fst (centers ! c)), longitude = Some (snd (centers ! c)),
                    priority_score = sum_list (map demand_score (members labels c (rows gp)))\<rparr>
               = \<lparr>latitude = Some (fst (centroid (members labels c coords))),
                            longitude = Some (snd (centroid (members labels c coords))),
                            priority_score = sum_list (map demand_score (members labels c (rows gp)))\<rparr>"
        by simp
    qed
    finally show ?thesis .
  qed
  have part: "recommendations =
      map (\<lambda>c. \<lparr>latitude = Some (fst (centers ! c)), longitude = Some (snd (centers ! c)),
                  priority_score = 0\<rparr>) [0..<k]" if f: "set labels \<noteq> {..<k}"
  proof -
    have "length scores \<noteq> k"
      using labels_partial [OF lt f] by (simp add: scores_def cluster_scores_def)
    then have "priority = replicate k 0" by (simp add: priority_def len(2))
    also have "\<dots> = map (\<lambda>c. 0) [0..<k]" by (simp add: map_replicate_const)
    finally have pr: "priority = map (\<lambda>c. 0) [0..<k]" .
    show ?thesis unfolding recommendations_def pr by (rule map2_upt) (rule len(2))
  qed
  have lr: "length recommendations = k"
  proof (cases "set labels = {..<k}")
    case True
    from full [OF True] show ?thesis by simp
  next
    case False
    from part [OF False] show ?thesis by simp
  qed
  have ms: "mset (srt recommendations) = mset recommendations"
    and de: "descending (srt recommendations)"
    using srt by (simp_all add: sort_values_ok_def)
  have ls: "length (srt recommendations) = k"
    using ms lr by (metis size_mset)
  have c1: "columns recs = [''latitude'', ''longitude'', ''priority_score'']"
    and c2: "rows recs = srt recommendations"
    by (simp_all add: recs_def)
  have l2: "length (rows recs) = k" by (simp only: c2 ls)
  have d2: "descending (rows recs)" by (simp only: c2 de)
  have m1: "set labels = {..<k} \<longrightarrow>
          mset (rows recs) =
            mset (map (\<lambda>c. \<lparr>latitude = Some (fst (centroid (members labels c coords))),
                            longitude = Some (snd (centroid (members labels c coords))),
                            priority_score = sum_list (map demand_score (members labels c (rows gp)))\<rparr>)
                   [0..<k])"
  proof
    assume f: "set labels = {..<k}"
    show "mset (rows recs) =
            mset (map (\<lambda>c. \<lparr>latitude = Some (fst (centroid (members labels c coords))),
                            longitude = Some (snd (centroid (members labels c coords))),
                            priority_score = sum_list (map demand_score (members labels c (rows gp)))\<rparr>)
                   [0..<k])"
      unfolding c2 ms by (simp only: full [OF f])
  qed
  have m2: "set labels \<noteq> {..<k} \<longrightarrow>
          mset (rows recs) =
            mset (map (\<lambda>c. \<lparr>latitude = Some (fst (centers ! c)), longitude = Some (snd (centers ! c)),
                            priority_score = 0\<rparr>) [0..<k])"
  proof
    assume f: "set labels \<noteq> {..<k}"
    show "mset (rows recs) =
            mset (map (\<lambda>c. \<lparr>latitude = Some (fst (centers ! c)), longitude = Some (snd (centers ! c)),
                            priority_score = 0\<rparr>) [0..<k])"
      unfolding c2 ms by (simp only: part [OF f])
  qed
  from res c1 l2 d2 m1 m2 show ?thesis by (intro exI conjI)
qed






lemma gap_A_facts:
  "rows gap_A \<noteq> []" "has_coordinates gap_A" "all_finite (rows gap_A)"
  "''demand_score'' \<in> set (columns gap_A)"
  "map point_deg (rows gap_A) = [(1297 / 100, 7759 / 100)]"
  by (simp_all add: gap_A_def has_coordinates_def all_finite_def point_deg_def del: not_None_eq)


text \<open>The same holds for every converged fit and every descending sort.\<close>

lemma scenario_A_sites:
  assumes fit: "fit 1 [(1297 / 100, 7759 / 100)] = (labels, centers)"
    and ok: "kmeans_fit_ok 1 [(1297 / 100, 7759 / 100)] (labels, centers)"
    and srt: "sort_values_ok srt"
  shows "\<exists>recs self'.
           recommend_locations fit srt ((init 1 5)\<lparr>gap_points := Some gap_A\<rparr>) = Inr (recs, self')
           \<and> columns recs = [''latitude'', ''longitude'', ''priority_score'']
           \<and> rows recs = [\<lparr>latitude = Some (1297 / 100), longitude = Some (7759 / 100), priority_score = 8\<rparr>]"
proof -
  let ?s = "(init 1 5 :: demand_row frame clusterer)\<lparr>gap_points := Some gap_A\<rparr>"
  let ?coords = "[(1297 / 100, 7759 / 100)] :: (real \<times> real) list"
  have 1: "gap_points ?s = Some gap_A" by simp
  have 5: "0 < n_new_stations ?s" by (simp add: init_def)
  have 6: "?coords = map point_deg (rows gap_A)" by (simp add: gap_A_facts(5))
  have 7: "(1::nat) = min (nat (n_new_stations ?s)) (length (rows gap_A))"
    by (simp add: init_def gap_A_def)
  from ok have l: "length labels = 1" "list_all (\<lambda>l. l < 1) labels"
    by (simp_all add: kmeans_fit_ok_def)
  then have lab: "labels = [0]" by (cases labels) simp_all
  have full: "set labels = {..<1}" by (auto simp: lab)
  from recommend_sites [where self = "?s" and gp = gap_A and coords = "?coords" and k = 1
      and fit = fit and labels = labels and centers = centers and srt = srt,
      OF 1 gap_A_facts(1) gap_A_facts(2) gap_A_facts(3) gap_A_facts(4) 5 6 7 fit ok srt] full
  obtain recs self' where r: "recommend_locations fit srt ?s = Inr (recs, self')"
    and c: "columns recs = [''latitude'', ''longitude'', ''priority_score'']"
    and m: "mset (rows recs) =
            mset (map (\<lambda>c. \<lparr>latitude = Some (fst (centroid (members labels c ?coords))),
                            longitude = Some (snd (centroid (members labels c ?coords))),
                            priority_score = sum_list (map demand_score (members labels c (rows gap_A)))\<rparr>)
                   [0..<1])"
    by blast
  have "map (\<lambda>c. \<lparr>latitude = Some (fst (centroid (members labels c ?coords))),
                            longitude = Some (snd (centroid (members labels c ?coords))),
                            priority_score = sum_list (map demand_score (members labels c (rows gap_A)))\<rparr>)
                   [0..<1]
        = [\<lparr>latitude = Some (1297 / 100), longitude = Some (7759 / 100), priority_score = 8\<rparr>]"
    by (simp add: lab members_def centroid_def gap_A_def)
  with m have "rows recs = [\<lparr>latitude = Some (1297 / 100), longitude = Some (7759 / 100), priority_score = 8\<rparr>]"
    by simp
  with r c show ?thesis by blast
qed

section \<open>State of the component and of its tables\<close>

subsection \<open>What the calls read and write\<close>

lemma find_gaps_returns:
  assumes "find_gaps self st dm = Inr (g, self')"
  shows "has_coordinates st \<and> has_coordinates dm \<and> rows st \<noteq> [] \<and> rows dm \<noteq> []
         \<and> all_finite (rows st) \<and> all_finite (rows dm)"
proof -
  have hc: "has_coordinates st \<and> has_coordinates dm"
    using assms by (auto simp: find_gaps_def split: if_splits)
  have fin: "all_finite (rows st) \<and> all_finite (rows dm)"
    using find_gaps_missing_coordinate [of st dm self] hc assms by auto
  have s: "rows st \<noteq> []"
  proof
    assume "rows st = []"
    then have "check_array (map to_radians (rows st)) = Inl ValueError"
      by (simp add: check_array_def)
    then show False using assms hc by (simp add: find_gaps_def Let_def)
  qed
  have d: "rows dm \<noteq> []"
  proof
    assume e: "rows dm = []"
    have "check_array (map to_radians (rows st)) = Inr (map point_rad (rows st))"
      using s fin by (intro check_array_finite) simp_all
    moreover have "check_array (map to_radians (rows dm)) = Inl ValueError"
      using e by (simp add: check_array_def)
    ultimately show False using assms hc by (simp add: find_gaps_def Let_def)
  qed
  show ?thesis using hc fin s d by simp
qed

lemma find_gaps_result:
  assumes "find_gaps self st dm = Inr (g, self')"
  shows "g = dm\<lparr>rows := filter (is_gap (coverage_radius_km self) st) (rows dm)\<rparr>
         \<and> self' = self\<lparr>gap_points := Some g\<rparr>"
proof -
  from find_gaps_returns [OF assms]
  have "find_gaps self st dm =
           Inr (dm\<lparr>rows := filter (is_gap (coverage_radius_km self) st) (rows dm)\<rparr>,
                self\<lparr>gap_points :=
                  Some (dm\<lparr>rows := filter (is_gap (coverage_radius_km self) st) (rows dm)\<rparr>)\<rparr>)"
    by (intro find_gaps_rows) simp_all
  with assms show ?thesis by auto
qed

lemma find_gaps_at_frame:
  assumes "find_gaps_at p self s d = Inr (a, p', self')"
  shows "a = fresh p \<and> fresh p' = Suc (fresh p)
     \<and> stations_at p' = stations_at p
     \<and> (\<forall>b. b \<noteq> a \<longrightarrow> demand_at p' b = demand_at p b)
     \<and> self' = self\<lparr>gap_points := Some a\<rparr>
     \<and> demand_at p' a
         = (demand_at p d)\<lparr>rows := filter (is_gap (coverage_radius_km self) (stations_at p s))
                                     (rows (demand_at p d))\<rparr>"
proof -
  obtain g x where fg: "find_gaps (resolve p self) (stations_at p s) (demand_at p d) = Inr (g, x)"
    using assms by (auto simp: find_gaps_at_def split: sum.splits)
  have r: "coverage_radius_km (resolve p self) = coverage_radius_km self"
    by (simp add: resolve_def)
  from find_gaps_result [OF fg]
  have g: "g = (demand_at p d)\<lparr>rows := filter (is_gap (coverage_radius_km self) (stations_at p s))
                                     (rows (demand_at p d))\<rparr>"
    by (simp add: r)
  have "a = fresh p \<and> p' = p\<lparr>demand_at := (demand_at p)(fresh p := g), fresh := Suc (fresh p)\<rparr>
    \<and> self' = self\<lparr>gap_points := Some (fresh p)\<rparr>"
    using assms fg by (auto simp: find_gaps_at_def Let_def)
  then show ?thesis using g by simp
qed

lemma check_array_coords_missing:
  assumes "\<not> all_finite rs"
  shows "check_array (map (\<lambda>r. (latitude r, longitude r)) rs) = Inl ValueError"
proof -
  from assms obtain r where "r \<in> set rs" "latitude r = None \<or> longitude r = None"
    by (auto simp: all_finite_def list_all_iff)
  then have "list_ex (\<lambda>p. fst p = None \<or> snd p = None) (map (\<lambda>r. (latitude r, longitude r)) rs)"
    by (auto simp: list_ex_iff)
  then show ?thesis by (simp add: check_array_def)
qed

lemma recommend_locations_cases:
  assumes r: "recommend_locations fit srt self = Inr (recs, self')"
  shows "(recs = empty_recommendations \<and> self' = self
          \<and> (gap_points self = None
               \<or> (\<exists>gp. gap_points self = Some gp
                        \<and> (rows gp = [] \<or> columns gp = [] \<or> n_new_stations self = 0))))
       \<or> (\<exists>gp. gap_points self = Some gp \<and> rows gp \<noteq> [] \<and> columns gp \<noteq> []
                \<and> has_coordinates gp \<and> all_finite (rows gp)
                \<and> ''demand_score'' \<in> set (columns gp) \<and> 0 < n_new_stations self)"
proof (cases "gap_points self")
  case None
  with r show ?thesis by (auto simp: recommend_locations_def)
next
  case (Some gp)
  show ?thesis
  proof (cases "rows gp = [] \<or> columns gp = []")
    case True
    with r Some show ?thesis by (auto simp: recommend_locations_def)
  next
    case False
    then have ne: "rows gp \<noteq> []" and cne: "columns gp \<noteq> []" by simp_all
    have len0: "0 < int (length (rows gp))" using ne by simp
    have hc: "has_coordinates gp"
    proof (rule ccontr)
      assume "\<not> has_coordinates gp"
      then have "recommend_locations fit srt self = Inl KeyError"
        using Some False by (simp add: recommend_locations_def)
      with r show False by simp
    qed
    define nc where "nc = min (n_new_stations self) (int (length (rows gp)))"
    show ?thesis
    proof (cases "n_new_stations self = 0")
      case True
      then have "nc = 0" using len0 by (simp add: nc_def)
      then have "recommend_locations fit srt self = Inr (empty_recommendations, self)"
        unfolding recommend_locations_def Some option.case Let_def length_map nc_def [symmetric]
        using False hc by simp
      with r True Some show ?thesis by auto
    next
      case n0: False
      have npos: "0 < n_new_stations self"
      proof (rule ccontr)
        assume "\<not> 0 < n_new_stations self"
        with n0 have "n_new_stations self < 0" by simp
        then have "nc < 0" by (simp add: nc_def)
        then have "recommend_locations fit srt self = Inl InvalidParameterError"
          unfolding recommend_locations_def Some option.case Let_def length_map nc_def [symmetric]
          using False hc by simp
        with r show False by simp
      qed
      have nc0: "0 < nc" using npos len0 by (simp add: nc_def)
      have fin: "all_finite (rows gp)"
      proof (rule ccontr)
        assume "\<not> all_finite (rows gp)"
        then have "check_array (map (\<lambda>r. (latitude r, longitude r)) (rows gp)) = Inl ValueError"
          by (rule check_array_coords_missing)
        then have "recommend_locations fit srt self = Inl ValueError"
          unfolding recommend_locations_def Some option.case Let_def length_map nc_def [symmetric]
          using False hc nc0 by simp
        with r show False by simp
      qed
      have ca: "check_array (map (\<lambda>r. (latitude r, longitude r)) (rows gp))
                  = Inr (map point_deg (rows gp))"
        using ne fin by (rule check_array_coords)
      have ds: "''demand_score'' \<in> set (columns gp)"
      proof (rule ccontr)
        assume "''demand_score'' \<notin> set (columns gp)"
        then have "recommend_locations fit srt self = Inl KeyError"
          unfolding recommend_locations_def Some option.case Let_def length_map nc_def [symmetric]
            ca sum.case
          using False hc nc0 by (simp split: prod.splits)
        with r show False by simp
      qed
      show ?thesis using Some ne cne hc fin ds npos by simp
    qed
  qed
qed

lemma recommend_state_only:
  assumes "n_new_stations self = n_new_stations other" "gap_points self = gap_points other"
  shows "map_sum id fst (recommend_locations fit srt self)
           = map_sum id fst (recommend_locations fit srt other)"
proof (cases "gap_points self")
  case None
  with assms show ?thesis by (simp add: recommend_locations_def)
next
  case (Some gp)
  have o: "gap_points other = Some gp" using Some assms(2) by simp
  show ?thesis
    unfolding recommend_locations_def Some o assms(1)
    by (simp add: Let_def min_less_iff_disj split: prod.splits sum.splits)
qed

lemma resolve_simps:
  "n_new_stations (resolve p self) = n_new_stations self"
  "coverage_radius_km (resolve p self) = coverage_radius_km self"
  "model_n_clusters (resolve p self) = model_n_clusters self"
  "gap_points (resolve p self) = map_option (demand_at p) (gap_points self)"
  by (simp_all add: resolve_def)

lemma recommend_locations_at_frame:
  assumes "recommend_locations_at fit srt p self = Inr (recs, p', self')"
  shows "stations_at p' = stations_at p \<and> fresh p' = fresh p
     \<and> (\<forall>b. gap_points self \<noteq> Some b \<longrightarrow> demand_at p' b = demand_at p b)
     \<and> n_new_stations self' = n_new_stations self
     \<and> coverage_radius_km self' = coverage_radius_km self
     \<and> gap_points self' = gap_points self
     \<and> ((gap_points self = None
           \<or> (\<exists>a. gap_points self = Some a
                  \<and> (rows (demand_at p a) = [] \<or> columns (demand_at p a) = []
                       \<or> n_new_stations self = 0)))
          \<longrightarrow> p' = p \<and> self' = self \<and> recs = empty_recommendations)
     \<and> (\<forall>a. gap_points self = Some a \<and> rows (demand_at p a) \<noteq> []
              \<and> columns (demand_at p a) \<noteq> [] \<and> n_new_stations self \<noteq> 0
          \<longrightarrow> model_n_clusters self'
                = min (n_new_stations self) (int (length (rows (demand_at p a))))
              \<and> demand_at p' a
                = with_clusters (demand_at p a)
                    (fst (fit (min (nat (n_new_stations self)) (length (rows (demand_at p a))))
                           (map point_deg (rows (demand_at p a))))))"
proof -
  obtain v where v: "recommend_locations fit srt (resolve p self) = Inr (recs, v)"
    using assms by (auto simp: recommend_locations_at_def split: sum.splits)
  have p': "p' = (case (gap_points self, gap_points v) of
                    (Some a, Some gp') \<Rightarrow> p\<lparr>demand_at := (demand_at p)(a := gp')\<rparr>
                  | _ \<Rightarrow> p)"
    and s': "self' = self\<lparr>model_n_clusters := model_n_clusters v\<rparr>"
    using assms v by (auto simp: recommend_locations_at_def)
  have st: "stations_at p' = stations_at p \<and> fresh p' = fresh p"
    unfolding p' by (simp split: option.splits)
  have other: "\<forall>b. gap_points self \<noteq> Some b \<longrightarrow> demand_at p' b = demand_at p b"
    unfolding p' by (auto split: option.splits)
  have cfg: "n_new_stations self' = n_new_stations self
     \<and> coverage_radius_km self' = coverage_radius_km self
     \<and> gap_points self' = gap_points self"
    unfolding s' by simp
  from recommend_locations_cases [OF v]
  consider (empty) "recs = empty_recommendations" "v = resolve p self"
      "gap_points (resolve p self) = None
       \<or> (\<exists>gp. gap_points (resolve p self) = Some gp
                \<and> (rows gp = [] \<or> columns gp = [] \<or> n_new_stations (resolve p self) = 0))"
    | (clustering) gp where "gap_points (resolve p self) = Some gp" "rows gp \<noteq> []"
        "columns gp \<noteq> []" "has_coordinates gp" "all_finite (rows gp)"
        "''demand_score'' \<in> set (columns gp)" "0 < n_new_stations (resolve p self)"
    by blast
  then show ?thesis
  proof cases
    case empty
    have pp: "p' = p"
      unfolding p' empty(2) by (simp add: resolve_simps split: option.splits)
    have ss: "self' = self" unfolding s' empty(2) by (simp add: resolve_simps)
    have no: "\<not> (gap_points self = Some a \<and> rows (demand_at p a) \<noteq> []
              \<and> columns (demand_at p a) \<noteq> [] \<and> n_new_stations self \<noteq> 0)" for a
      using empty(3) by (auto simp: resolve_simps)
    show ?thesis using st other cfg pp ss empty(1) no by blast
  next
    case clustering
    from clustering(1) obtain a where a: "gap_points self = Some a" "gp = demand_at p a"
      by (auto simp: resolve_simps)
    obtain labels centers
      where f: "fit (min (nat (n_new_stations (resolve p self))) (length (rows gp)))
                  (map point_deg (rows gp)) = (labels, centers)"
      by (cases "fit (min (nat (n_new_stations (resolve p self))) (length (rows gp)))
                  (map point_deg (rows gp))")
    from recommend_locations_clustering [where self = "resolve p self" and fit = fit and srt = srt
        and gp = gp and labels = labels and centers = centers, OF clustering(1,2,4,5,6,7) f] v
    have veq: "model_n_clusters v = min (n_new_stations self) (int (length (rows gp)))"
      "gap_points v = Some (with_clusters gp labels)"
      by (auto simp: resolve_simps)
    have lab: "labels = fst (fit (min (nat (n_new_stations self)) (length (rows gp)))
                  (map point_deg (rows gp)))"
      using f by (simp add: resolve_simps)
    have m: "model_n_clusters self' = min (n_new_stations self) (int (length (rows (demand_at p a))))"
      unfolding s' using veq(1) a(2) by simp
    have w: "demand_at p' a = with_clusters (demand_at p a)
                    (fst (fit (min (nat (n_new_stations self)) (length (rows (demand_at p a))))
                           (map point_deg (rows (demand_at p a)))))"
      unfolding p' using a veq(2) lab by simp
    have notempty: "\<not> (gap_points self = None
           \<or> (\<exists>a. gap_points self = Some a
                  \<and> (rows (demand_at p a) = [] \<or> columns (demand_at p a) = []
                       \<or> n_new_stations self = 0)))"
      using a clustering(2,3,7) by (auto simp: resolve_simps)
    have only: "b = a" if "gap_points self = Some b" for b using that a(1) by simp
    show ?thesis using st other cfg m w notempty only by blast
  qed
qed

lemma recommend_locations_at_result:
  assumes "recommend_locations_at fit srt p self = Inr (recs, p', self')"
    and "n_new_stations other = n_new_stations self"
    and "map_option (demand_at q) (gap_points other) = map_option (demand_at p) (gap_points self)"
  shows "map_sum id fst (recommend_locations_at fit srt q other) = Inr recs"
proof -
  have "map_sum id fst (recommend_locations_at fit srt q other)
          = map_sum id fst (recommend_locations fit srt (resolve q other))"
    by (simp add: recommend_locations_at_def split: sum.splits prod.splits)
  also have "\<dots> = map_sum id fst (recommend_locations fit srt (resolve p self))"
    by (rule recommend_state_only) (simp_all add: resolve_simps assms(2,3))
  also have "\<dots> = map_sum id fst (recommend_locations_at fit srt p self)"
    by (simp add: recommend_locations_at_def split: sum.splits prod.splits)
  also have "\<dots> = Inr recs" using assms(1) by simp
  finally show ?thesis .
qed

lemma find_gaps_radius_only:
  "coverage_radius_km other = coverage_radius_km self
     \<Longrightarrow> map_sum id fst (find_gaps other st dm) = map_sum id fst (find_gaps self st dm)"
  by (simp add: find_gaps_def Let_def split: sum.splits)

lemma find_gaps_at_arguments_only:
  assumes "coverage_radius_km other = coverage_radius_km self"
    and "stations_at q s' = stations_at p s" and "demand_at q d' = demand_at p d"
  shows "map_sum id (\<lambda>(a, p', self'). demand_at p' a) (find_gaps_at q other s' d')
           = map_sum id (\<lambda>(a, p', self'). demand_at p' a) (find_gaps_at p self s d)"
proof -
  have v: "map_sum id (\<lambda>(a, p', self'). demand_at p' a) (find_gaps_at p self s d)
             = map_sum id fst (find_gaps (resolve p self) (stations_at p s) (demand_at p d))"
    for p self s d
    by (simp add: find_gaps_at_def Let_def split: sum.splits)
  have "map_sum id fst (find_gaps (resolve q other) (stations_at p s) (demand_at p d))
          = map_sum id fst (find_gaps (resolve p self) (stations_at p s) (demand_at p d))"
    by (rule find_gaps_radius_only) (simp add: resolve_simps assms(1))
  then show ?thesis by (simp only: v assms(2,3))
qed

lemma find_gaps_then_recommend:
  assumes g: "find_gaps_at p self s d = Inr (a, p', self')"
    and r: "recommend_locations_at fit srt p' self' = Inr (recs, p'', self'')"
  shows "stations_at p'' = stations_at p
     \<and> (\<forall>b. b \<noteq> fresh p \<longrightarrow> demand_at p'' b = demand_at p b)
     \<and> gap_points self'' = Some (fresh p)
     \<and> n_new_stations self'' = n_new_stations self
     \<and> coverage_radius_km self'' = coverage_radius_km self"
proof -
  from find_gaps_at_frame [OF g]
  have a: "a = fresh p" and st: "stations_at p' = stations_at p"
    and dm: "\<forall>b. b \<noteq> a \<longrightarrow> demand_at p' b = demand_at p b"
    and s: "self' = self\<lparr>gap_points := Some a\<rparr>"
    by simp_all
  from recommend_locations_at_frame [OF r]
  have st': "stations_at p'' = stations_at p'"
    and dm': "\<forall>b. gap_points self' \<noteq> Some b \<longrightarrow> demand_at p'' b = demand_at p' b"
    and c: "n_new_stations self'' = n_new_stations self'"
       "coverage_radius_km self'' = coverage_radius_km self'"
       "gap_points self'' = gap_points self'"
    by simp_all
  have 1: "stations_at p'' = stations_at p" using st st' by simp
  have 2: "\<forall>b. b \<noteq> fresh p \<longrightarrow> demand_at p'' b = demand_at p b"
    using dm dm' a s by simp
  have 3: "gap_points self'' = Some (fresh p)" using c(3) s a by simp
  have 4: "n_new_stations self'' = n_new_stations self" using c(1) s by simp
  have 5: "coverage_radius_km self'' = coverage_radius_km self" using c(2) s by simp
  from 1 2 3 4 5 show ?thesis by (intro conjI)
qed

lemma resolve_init: "resolve p (init n r) = init n r"
  by (simp add: resolve_def init_def)

lemma find_gaps_at_A:
  assumes "0 \<le> r" "r \<le> 5"
  shows "find_gaps_at process_A (init n r) 0 1
           = Inr (2, process_A1, (init n r)\<lparr>gap_points := Some 2\<rparr>)"
proof -
  have "find_gaps (resolve process_A (init n r)) (stations_at process_A 0) (demand_at process_A 1)
          = Inr (gap_A, (init n r)\<lparr>gap_points := Some gap_A\<rparr>)"
    using find_gaps_A_radius [OF assms, of n] by (simp add: resolve_init process_A_def)
  then show ?thesis
    by (simp add: find_gaps_at_def Let_def process_A1_def process_A_def)
qed

lemma recommend_A:
  assumes gp: "gap_points self = Some gap_A" and n: "0 < n_new_stations self"
  shows "recommend_locations lump_fit stable_sort_desc self
           = Inr (sites_A, self\<lparr>model_n_clusters := 1, gap_points := Some clustered_gap_A\<rparr>)"
proof -
  have k: "min (nat (n_new_stations self)) (length (rows gap_A)) = 1"
    using n by (simp add: gap_A_def)
  have k': "min (n_new_stations self) (int (length (rows gap_A))) = 1"
    using n by (simp add: gap_A_def)
  have f: "lump_fit (min (nat (n_new_stations self)) (length (rows gap_A)))
             (map point_deg (rows gap_A)) = ([0], [(1297 / 100, 7759 / 100)])"
    unfolding k by (simp add: lump_fit_def centroid_def gap_A_facts(5))
  have w: "with_clusters gap_A [0] = clustered_gap_A"
    by (simp add: with_clusters_def gap_A_def clustered_gap_A_def)
  have s: "cluster_scores (rows gap_A) [0] = [8]"
    by (simp add: cluster_scores_def members_def gap_A_def)
  have srt: "stable_sort_desc
               [\<lparr>latitude = Some (1297 / 100), longitude = Some (7759 / 100), priority_score = 8\<rparr>]
             = [\<lparr>latitude = Some (1297 / 100), longitude = Some (7759 / 100), priority_score = 8\<rparr>]"
    by (simp add: stable_sort_desc_def)
  from recommend_locations_clustering [where self = self and fit = lump_fit
      and srt = stable_sort_desc and gp = gap_A and labels = "[0]"
      and centers = "[(1297 / 100, 7759 / 100)]",
      OF gp gap_A_facts(1) gap_A_facts(2) gap_A_facts(3) gap_A_facts(4) n f]
  show ?thesis by (simp add: k' w s srt sites_A_def)
qed

lemma recommend_locations_at_A:
  assumes "0 < n"
  shows "recommend_locations_at lump_fit stable_sort_desc process_A1
             ((init n r)\<lparr>gap_points := Some 2\<rparr>)
           = Inr (sites_A, process_A2, (init n r)\<lparr>model_n_clusters := 1, gap_points := Some 2\<rparr>)"
proof -
  let ?s = "resolve process_A1 ((init n r)\<lparr>gap_points := Some 2\<rparr>)"
  have gp: "gap_points ?s = Some gap_A" by (simp add: resolve_simps process_A1_def)
  have n: "0 < n_new_stations ?s" using assms by (simp add: resolve_simps init_def)
  have v: "recommend_locations lump_fit stable_sort_desc ?s
             = Inr (sites_A, ?s\<lparr>model_n_clusters := 1, gap_points := Some clustered_gap_A\<rparr>)"
    using gp n by (rule recommend_A)
  show ?thesis
    unfolding recommend_locations_at_def v by (simp add: process_A2_def resolve_simps)
qed

text \<open>
  C9 as stated fails. \<^verbatim>\<open>find_gaps\<close> changes the object: a fresh object has no
  \<^verbatim>\<open>gap_points\<close>, the object after the call holds the address of the gap table. And
  \<^verbatim>\<open>recommend_locations\<close>, which has no argument of its own, answers from that stored
  table: nothing on the fresh object, one site after the call. It also writes: the gap
  table, which is the table \<^verbatim>\<open>find_gaps\<close> returned to its caller, has a \<^verbatim>\<open>cluster\<close>
  column afterwards.
\<close>

theorem find_gaps_changes_state:
  "gap_points (init 1 5 :: nat clusterer) = None
   \<and> find_gaps_at process_A (init 1 5) 0 1
       = Inr (2, process_A1, (init 1 5)\<lparr>gap_points := Some 2\<rparr>)
   \<and> map_sum id (rows \<circ> fst) (recommend_locations_at lump_fit stable_sort_desc process_A1 (init 1 5))
       = Inr []
   \<and> map_sum id (rows \<circ> fst)
         (recommend_locations_at lump_fit stable_sort_desc process_A1
            ((init 1 5)\<lparr>gap_points := Some 2\<rparr>))
       = Inr [\<lparr>latitude = Some (1297 / 100), longitude = Some (7759 / 100), priority_score = 8\<rparr>]
   \<and> map_sum id (\<lambda>(recs, p, self). demand_at p 2)
         (recommend_locations_at lump_fit stable_sort_desc process_A1
            ((init 1 5)\<lparr>gap_points := Some 2\<rparr>))
       = Inr clustered_gap_A
   \<and> demand_at process_A1 2 = gap_A"
proof -
  have 1: "gap_points (init 1 5 :: nat clusterer) = None" by (simp add: init_def)
  have 2: "find_gaps_at process_A (init 1 5) 0 1
       = Inr (2, process_A1, (init 1 5)\<lparr>gap_points := Some 2\<rparr>)"
    by (rule find_gaps_at_A) simp_all
  have "recommend_locations lump_fit stable_sort_desc (resolve process_A1 (init 1 5))
          = Inr (empty_recommendations, init 1 5)"
    unfolding resolve_init by (simp add: recommend_locations_def init_def)
  then have 3: "map_sum id (rows \<circ> fst)
             (recommend_locations_at lump_fit stable_sort_desc process_A1 (init 1 5)) = Inr []"
    unfolding recommend_locations_at_def by (simp add: empty_recommendations_def)
  have r: "recommend_locations_at lump_fit stable_sort_desc process_A1
             ((init 1 5)\<lparr>gap_points := Some 2\<rparr>)
           = Inr (sites_A, process_A2, (init 1 5)\<lparr>model_n_clusters := 1, gap_points := Some 2\<rparr>)"
    by (rule recommend_locations_at_A) simp
  have 4: "map_sum id (rows \<circ> fst)
         (recommend_locations_at lump_fit stable_sort_desc process_A1
            ((init 1 5)\<lparr>gap_points := Some 2\<rparr>))
       = Inr [\<lparr>latitude = Some (1297 / 100), longitude = Some (7759 / 100), priority_score = 8\<rparr>]"
    by (simp add: r sites_A_def)
  have 5: "map_sum id (\<lambda>(recs, p, self). demand_at p 2)
         (recommend_locations_at lump_fit stable_sort_desc process_A1
            ((init 1 5)\<lparr>gap_points := Some 2\<rparr>))
       = Inr clustered_gap_A"
    by (simp add: r process_A2_def)
  have 6: "demand_at process_A1 2 = gap_A" by (simp add: process_A1_def)
  from 1 2 3 4 5 6 show ?thesis by (intro conjI)
qed

text \<open>
  C9, amended. The tables live at addresses, so that a table left unchanged is a table
  whose address holds the same content afterwards.

  \<^verbatim>\<open>find_gaps\<close>, when it returns: the result is a new table at the fresh address; every
  table that existed before, the two inputs among them, is as it was; the object changes
  in \<^verbatim>\<open>gap_points\<close> alone, which now holds the new address; and the new table consists
  of the demand rows with no station within the radius. Whether it returns, and
  the table it returns, depends on the object through the coverage radius only.

  \<^verbatim>\<open>recommend_locations\<close>, when it returns: no station table and no demand table other
  than the stored gap table changes, and no table is created; the requested count, the
  radius and the address in \<^verbatim>\<open>gap_points\<close> stay. If there is no gap table, or it is
  empty, or no site is requested, nothing changes at all and the result is the empty
  table. Otherwise \<^verbatim>\<open>model.n_clusters\<close> becomes the smaller of the requested count and
  the number of gap rows, and the stored gap table gets the labels of the fit as its
  \<^verbatim>\<open>cluster\<close> column. The result depends on the object and the process through the
  requested count and the content of the stored gap table only.

  The two calls in sequence leave the station tables and every demand table that existed
  before the first call as they were.
\<close>

theorem find_gaps_recommend_frame:
  "(find_gaps_at p self s d = Inr (a, p', self')
      \<longrightarrow> a = fresh p \<and> fresh p' = Suc (fresh p)
          \<and> stations_at p' = stations_at p
          \<and> (\<forall>b. b \<noteq> a \<longrightarrow> demand_at p' b = demand_at p b)
          \<and> self' = self\<lparr>gap_points := Some a\<rparr>
          \<and> demand_at p' a
              = (demand_at p d)\<lparr>rows := filter (is_gap (coverage_radius_km self) (stations_at p s))
                                          (rows (demand_at p d))\<rparr>)
   \<and> (coverage_radius_km other = coverage_radius_km self
        \<and> stations_at q s' = stations_at p s \<and> demand_at q d' = demand_at p d
      \<longrightarrow> map_sum id (\<lambda>(a, p', self'). demand_at p' a) (find_gaps_at q other s' d')
            = map_sum id (\<lambda>(a, p', self'). demand_at p' a) (find_gaps_at p self s d))
   \<and> (recommend_locations_at fit srt p self = Inr (recs, p'', self'')
      \<longrightarrow> stations_at p'' = stations_at p \<and> fresh p'' = fresh p
          \<and> (\<forall>b. gap_points self \<noteq> Some b \<longrightarrow> demand_at p'' b = demand_at p b)
          \<and> n_new_stations self'' = n_new_stations self
          \<and> coverage_radius_km self'' = coverage_radius_km self
          \<and> gap_points self'' = gap_points self
          \<and> ((gap_points self = None
                \<or> (\<exists>g. gap_points self = Some g
                       \<and> (rows (demand_at p g) = [] \<or> columns (demand_at p g) = []
                            \<or> n_new_stations self = 0)))
               \<longrightarrow> p'' = p \<and> self'' = self \<and> recs = empty_recommendations)
          \<and> (\<forall>g. gap_points self = Some g \<and> rows (demand_at p g) \<noteq> []
                   \<and> columns (demand_at p g) \<noteq> [] \<and> n_new_stations self \<noteq> 0
               \<longrightarrow> model_n_clusters self''
                     = min (n_new_stations self) (int (length (rows (demand_at p g))))
                   \<and> demand_at p'' g
                     = with_clusters (demand_at p g)
                         (fst (fit (min (nat (n_new_stations self)) (length (rows (demand_at p g))))
                                (map point_deg (rows (demand_at p g)))))))
   \<and> (recommend_locations_at fit srt p self = Inr (recs, p'', self'')
        \<and> n_new_stations other' = n_new_stations self
        \<and> map_option (demand_at q') (gap_points other') = map_option (demand_at p) (gap_points self)
      \<longrightarrow> map_sum id fst (recommend_locations_at fit srt q' other') = Inr recs)
   \<and> (find_gaps_at p self s d = Inr (a, p', self')
        \<and> recommend_locations_at fit srt p' self' = Inr (recs', p3, self3)
      \<longrightarrow> stations_at p3 = stations_at p
          \<and> (\<forall>b. b \<noteq> fresh p \<longrightarrow> demand_at p3 b = demand_at p b)
          \<and> gap_points self3 = Some (fresh p)
          \<and> n_new_stations self3 = n_new_stations self
          \<and> coverage_radius_km self3 = coverage_radius_km self)"
proof -
  have 1: "find_gaps_at p self s d = Inr (a, p', self')
      \<longrightarrow> a = fresh p \<and> fresh p' = Suc (fresh p)
          \<and> stations_at p' = stations_at p
          \<and> (\<forall>b. b \<noteq> a \<longrightarrow> demand_at p' b = demand_at p b)
          \<and> self' = self\<lparr>gap_points := Some a\<rparr>
          \<and> demand_at p' a
              = (demand_at p d)\<lparr>rows := filter (is_gap (coverage_radius_km self) (stations_at p s))
                                          (rows (demand_at p d))\<rparr>"
    by (rule impI) (rule find_gaps_at_frame)
  have 2: "coverage_radius_km other = coverage_radius_km self
        \<and> stations_at q s' = stations_at p s \<and> demand_at q d' = demand_at p d
      \<longrightarrow> map_sum id (\<lambda>(a, p', self'). demand_at p' a) (find_gaps_at q other s' d')
            = map_sum id (\<lambda>(a, p', self'). demand_at p' a) (find_gaps_at p self s d)"
    using find_gaps_at_arguments_only [of other self q s' p s d' d] by blast
  have 3: "recommend_locations_at fit srt p self = Inr (recs, p'', self'')
      \<longrightarrow> stations_at p'' = stations_at p \<and> fresh p'' = fresh p
          \<and> (\<forall>b. gap_points self \<noteq> Some b \<longrightarrow> demand_at p'' b = demand_at p b)
          \<and> n_new_stations self'' = n_new_stations self
          \<and> coverage_radius_km self'' = coverage_radius_km self
          \<and> gap_points self'' = gap_points self
          \<and> ((gap_points self = None
                \<or> (\<exists>g. gap_points self = Some g
                       \<and> (rows (demand_at p g) = [] \<or> columns (demand_at p g) = []
                            \<or> n_new_stations self = 0)))
               \<longrightarrow> p'' = p \<and> self'' = self \<and> recs = empty_recommendations)
          \<and> (\<forall>g. gap_points self = Some g \<and> rows (demand_at p g) \<noteq> []
                   \<and> columns (demand_at p g) \<noteq> [] \<and> n_new_stations self \<noteq> 0
               \<longrightarrow> model_n_clusters self''
                     = min (n_new_stations self) (int (length (rows (demand_at p g))))
                   \<and> demand_at p'' g
                     = with_clusters (demand_at p g)
                         (fst (fit (min (nat (n_new_stations self)) (length (rows (demand_at p g))))
                                (map point_deg (rows (demand_at p g))))))"
    by (rule impI) (rule recommend_locations_at_frame)
  have 4: "recommend_locations_at fit srt p self = Inr (recs, p'', self'')
        \<and> n_new_stations other' = n_new_stations self
        \<and> map_option (demand_at q') (gap_points other') = map_option (demand_at p) (gap_points self)
      \<longrightarrow> map_sum id fst (recommend_locations_at fit srt q' other') = Inr recs"
    using recommend_locations_at_result [of fit srt p self recs p'' self'' other' q'] by blast
  have 5: "find_gaps_at p self s d = Inr (a, p', self')
        \<and> recommend_locations_at fit srt p' self' = Inr (recs', p3, self3)
      \<longrightarrow> stations_at p3 = stations_at p
          \<and> (\<forall>b. b \<noteq> fresh p \<longrightarrow> demand_at p3 b = demand_at p b)
          \<and> gap_points self3 = Some (fresh p)
          \<and> n_new_stations self3 = n_new_stations self
          \<and> coverage_radius_km self3 = coverage_radius_km self"
    using find_gaps_then_recommend [of p self s d a p' self' fit srt recs' p3 self3] by blast
  from 1 2 3 4 5 show ?thesis by (intro conjI)
qed

text \<open>
  Scenario A with three requested sites, both calls in sequence. \<^verbatim>\<open>find_gaps\<close> puts
  the gap table at address 2 and leaves the inputs at 0 and 1 alone, also for an object
  that differs in the requested count. \<^verbatim>\<open>recommend_locations\<close> then clusters the one
  gap point: \<^verbatim>\<open>model.n_clusters\<close> goes from 3 to 1, the table at address 2 gets its
  \<^verbatim>\<open>cluster\<close> column, the inputs stay, and an object with another radius whose gap
  table has the same content at another address gets the same site. On the object
  before \<^verbatim>\<open>find_gaps\<close> it changes nothing.
\<close>

theorem find_gaps_recommend_frame_witness:
  "find_gaps_at process_A (init 3 5) 0 1
     = Inr (2, process_A1, (init 3 5)\<lparr>gap_points := Some 2\<rparr>)
   \<and> fresh process_A = 2 \<and> fresh process_A1 = 3
   \<and> stations_at process_A1 = stations_at process_A
   \<and> demand_at process_A1 1 = demand_at process_A 1
   \<and> demand_at process_A1 2 = gap_A
   \<and> coverage_radius_km (init 7 5 :: nat clusterer) = coverage_radius_km (init 3 5 :: nat clusterer)
   \<and> stations_at process_A1 0 = stations_at process_A 0
   \<and> map_sum id (\<lambda>(a, p', self'). demand_at p' a) (find_gaps_at process_A1 (init 7 5) 0 1)
       = Inr gap_A
   \<and> recommend_locations_at lump_fit stable_sort_desc process_A1 ((init 3 5)\<lparr>gap_points := Some 2\<rparr>)
       = Inr (sites_A, process_A2, (init 3 5)\<lparr>model_n_clusters := 1, gap_points := Some 2\<rparr>)
   \<and> model_n_clusters ((init 3 5 :: nat clusterer)\<lparr>gap_points := Some 2\<rparr>) = 3
   \<and> model_n_clusters ((init 3 5 :: nat clusterer)\<lparr>model_n_clusters := 1, gap_points := Some 2\<rparr>)
       = min 3 (int (length (rows gap_A)))
   \<and> demand_at process_A2 2 = with_clusters gap_A [0]
   \<and> stations_at process_A2 = stations_at process_A1
   \<and> fresh process_A2 = fresh process_A1
   \<and> n_new_stations ((init 3 9 :: nat clusterer)\<lparr>gap_points := Some 0\<rparr>)
       = n_new_stations ((init 3 5 :: nat clusterer)\<lparr>gap_points := Some 2\<rparr>)
   \<and> map_sum id fst
         (recommend_locations_at lump_fit stable_sort_desc (process_A\<lparr>demand_at := (\<lambda>a. gap_A)\<rparr>)
            ((init 3 9)\<lparr>gap_points := Some 0\<rparr>))
       = Inr sites_A
   \<and> recommend_locations_at lump_fit stable_sort_desc process_A (init 3 5)
       = Inr (empty_recommendations, process_A, init 3 5)
   \<and> stations_at process_A2 = stations_at process_A
   \<and> demand_at process_A2 0 = demand_at process_A 0
   \<and> demand_at process_A2 1 = demand_at process_A 1"
proof -
  let ?s0 = "init 3 5 :: nat clusterer"
  let ?s1 = "(init 3 5 :: nat clusterer)\<lparr>gap_points := Some 2\<rparr>"
  let ?s2 = "(init 3 5 :: nat clusterer)\<lparr>model_n_clusters := 1, gap_points := Some 2\<rparr>"
  let ?o = "(init 3 9 :: nat clusterer)\<lparr>gap_points := Some 0\<rparr>"
  let ?q = "process_A\<lparr>demand_at := (\<lambda>a. gap_A)\<rparr>"
  note c1 = find_gaps_recommend_frame [THEN conjunct1]
  note c2 = find_gaps_recommend_frame [THEN conjunct2, THEN conjunct1]
  note c3 = find_gaps_recommend_frame [THEN conjunct2, THEN conjunct2, THEN conjunct1]
  note c4 = find_gaps_recommend_frame [THEN conjunct2, THEN conjunct2, THEN conjunct2,
      THEN conjunct1]
  note c5 = find_gaps_recommend_frame [THEN conjunct2, THEN conjunct2, THEN conjunct2,
      THEN conjunct2]
  have g: "find_gaps_at process_A ?s0 0 1 = Inr (2, process_A1, ?s1)"
    by (rule find_gaps_at_A) simp_all
  have r: "recommend_locations_at lump_fit stable_sort_desc process_A1 ?s1
             = Inr (sites_A, process_A2, ?s2)"
    by (rule recommend_locations_at_A) simp
  have "recommend_locations lump_fit stable_sort_desc (resolve process_A ?s0)
          = Inr (empty_recommendations, init 3 5)"
    unfolding resolve_init by (simp add: recommend_locations_def init_def)
  then have e: "recommend_locations_at lump_fit stable_sort_desc process_A ?s0
             = Inr (empty_recommendations, process_A, ?s0)"
    unfolding recommend_locations_at_def by (simp add: init_def)
  have f: "fresh process_A = 2" "fresh process_A1 = 3"
    by (simp_all add: process_A_def process_A1_def)
  have rad: "coverage_radius_km (init 7 5 :: nat clusterer) = coverage_radius_km ?s0"
    by (simp add: init_def)
  have st0: "stations_at process_A1 0 = stations_at process_A 0"
    by (simp add: process_A1_def)
  have dm1: "demand_at process_A1 1 = demand_at process_A 1"
    by (simp add: process_A1_def)
  have obj: "model_n_clusters ?s1 = 3" "n_new_stations ?o = n_new_stations ?s1"
    by (simp_all add: init_def)
  have same: "map_option (demand_at ?q) (gap_points ?o) = map_option (demand_at process_A1) (gap_points ?s1)"
    by (simp add: process_A1_def)
  have gpA1: "demand_at process_A1 2 = gap_A" by (simp add: process_A1_def)
  have lab: "fst (lump_fit (min (nat (n_new_stations ?s1)) (length (rows (demand_at process_A1 2))))
                    (map point_deg (rows (demand_at process_A1 2)))) = [0]"
    by (simp add: gpA1 lump_fit_def gap_A_def)
  from c1 [THEN mp, OF g]
  have 1: "stations_at process_A1 = stations_at process_A"
       "\<forall>b. b \<noteq> 2 \<longrightarrow> demand_at process_A1 b = demand_at process_A b"
    by blast+
  have gv: "map_sum id (\<lambda>(a, p', self'). demand_at p' a) (find_gaps_at process_A ?s0 0 1)
              = Inr gap_A"
    unfolding g by (simp add: gpA1)
  from c2 [THEN mp, OF conjI [OF rad conjI [OF st0 dm1]]]
  have 2: "map_sum id (\<lambda>(a, p', self'). demand_at p' a) (find_gaps_at process_A1 (init 7 5) 0 1)
             = Inr gap_A"
    by (simp only: gv)
  from c3 [THEN mp, OF r]
  have 3: "stations_at process_A2 = stations_at process_A1" "fresh process_A2 = fresh process_A1"
    "\<forall>g. gap_points ?s1 = Some g \<and> rows (demand_at process_A1 g) \<noteq> []
            \<and> columns (demand_at process_A1 g) \<noteq> [] \<and> n_new_stations ?s1 \<noteq> 0
        \<longrightarrow> model_n_clusters ?s2
              = min (n_new_stations ?s1) (int (length (rows (demand_at process_A1 g))))
            \<and> demand_at process_A2 g
              = with_clusters (demand_at process_A1 g)
                  (fst (lump_fit (min (nat (n_new_stations ?s1)) (length (rows (demand_at process_A1 g))))
                         (map point_deg (rows (demand_at process_A1 g)))))"
    by blast+
  have pre: "gap_points ?s1 = Some 2 \<and> rows (demand_at process_A1 2) \<noteq> []
            \<and> columns (demand_at process_A1 2) \<noteq> [] \<and> n_new_stations ?s1 \<noteq> 0"
    by (simp add: gpA1 gap_A_def init_def)
  from 3(3) [THEN spec, THEN mp, OF pre]
  have m3: "model_n_clusters ?s2 = min 3 (int (length (rows gap_A)))"
    "demand_at process_A2 2 = with_clusters gap_A [0]"
    unfolding lab unfolding gpA1 by (simp_all add: init_def)
  from c4 [THEN mp, OF conjI [OF r conjI [OF obj(2) same]]]
  have 4: "map_sum id fst (recommend_locations_at lump_fit stable_sort_desc ?q ?o) = Inr sites_A" .
  from c5 [THEN mp, OF conjI [OF g r]]
  have 5: "stations_at process_A2 = stations_at process_A"
    "\<forall>b. b \<noteq> fresh process_A \<longrightarrow> demand_at process_A2 b = demand_at process_A b"
    by blast+
  have m5: "demand_at process_A2 0 = demand_at process_A 0"
    "demand_at process_A2 1 = demand_at process_A 1"
    using 5(2) by (simp_all add: f)
  from g f 1(1) dm1 gpA1 rad st0 2 r obj(1) m3(1) m3(2) 3(1) 3(2) obj(2) 4 e 5(1) m5
  show ?thesis by (intro conjI)
qed

end
